theory Spec2Isabelle
  imports
    Main
    "HOL-Library.Char_ord"
    "HOL-Library.List_Lexorder"
    "HOL-Library.Product_Lexorder"
    "HOL-Library.Multiset"
begin

section \<open>Characters and strings\<close>

text \<open>
  The log file is text; a Python \<open>str\<close> is modelled as a \<open>string\<close> whose characters are
  the code points below 256. On that range \<open>\d\<close> matches the ten ASCII digits,
  \<open>[A-Z]\<close> under \<open>re.IGNORECASE\<close> matches the 52 ASCII letters, and \<open>\s\<close> and
  \<open>str.strip\<close> agree on the twelve characters of \<open>space\<close>.
\<close>

definition digit :: "char \<Rightarrow> bool" where
  "digit c \<longleftrightarrow> c \<in> set ''0123456789''"

definition letter :: "char \<Rightarrow> bool" where
  "letter c \<longleftrightarrow> c \<in> set ''ABCDEFGHIJKLMNOPQRSTUVWXYZabcdefghijklmnopqrstuvwxyz''"

definition space :: "char \<Rightarrow> bool" where
  "space c \<longleftrightarrow> c \<in> set [CHR 0x09, CHR 0x0A, CHR 0x0B, CHR 0x0C, CHR 0x0D,
     CHR 0x1C, CHR 0x1D, CHR 0x1E, CHR 0x1F, CHR 0x20, CHR 0x85, CHR 0xA0]"

definition upper_char :: "char \<Rightarrow> char" where
  "upper_char c =
     (case map_of (zip ''abcdefghijklmnopqrstuvwxyz'' ''ABCDEFGHIJKLMNOPQRSTUVWXYZ'') c of
        None \<Rightarrow> c
      | Some u \<Rightarrow> u)"

text \<open>\<open>str.upper\<close>; it is applied to matched ticket identifiers only (ASCII).\<close>

definition upper :: "string \<Rightarrow> string" where
  "upper s = map upper_char s"

text \<open>\<open>str.strip()\<close>\<close>

definition strip :: "string \<Rightarrow> string" where
  "strip s = rev (dropWhile space (rev (dropWhile space s)))"

text \<open>\<open>re.sub(r'\s+', ' ', s)\<close>: every maximal run of white space becomes one blank.
  The flag says whether the previous character belonged to a run.\<close>

fun sub_spaces :: "bool \<Rightarrow> string \<Rightarrow> string" where
  "sub_spaces in_run [] = []"
| "sub_spaces in_run (c # cs) =
     (if space c then (if in_run then sub_spaces True cs else CHR '' '' # sub_spaces True cs)
      else c # sub_spaces False cs)"

text \<open>\<open>re.sub(r'\s+', ' ', line.strip())\<close>, the first statement of \<open>parse_line\<close>.\<close>

definition normalized :: "string \<Rightarrow> string" where
  "normalized line = sub_spaces False (strip line)"

text \<open>\<open>str.split(sep, maxsplit)\<close> and \<open>str.split(sep)\<close> for a one-character separator.\<close>

primrec split_max :: "char \<Rightarrow> nat \<Rightarrow> string \<Rightarrow> string list" where
  "split_max sep 0 s = [s]"
| "split_max sep (Suc n) s =
     (if sep \<in> set s
      then takeWhile (\<lambda>c. c \<noteq> sep) s # split_max sep n (tl (dropWhile (\<lambda>c. c \<noteq> sep) s))
      else [s])"

primrec split :: "char \<Rightarrow> string \<Rightarrow> string list" where
  "split sep [] = [[]]"
| "split sep (c # cs) =
     (if c = sep then [] # split sep cs
      else (case split sep cs of p # ps \<Rightarrow> (c # p) # ps | [] \<Rightarrow> [[c]]))"

section \<open>Errors\<close>

text \<open>
  Every exception the parser can raise, by the message it carries. The two wrappers keep
  the message they wrap, as \<open>'String \'{}\' is invalid: {}'\<close> and
  \<open>'Error on line {}: {}'\<close> do.
\<close>

datatype error =
    Pattern_not_matched
  | Date_in_future
  | Value_error
  | Ticket_pattern_not_matched
  | Time_pattern_not_matched
  | Float_overflow
  | Ticket_lookup_failed string
  | String_invalid string error
  | Error_on_line nat error
  | Sort_key_error
  | Attribute_error
  | No_logs_found

section \<open>Regular expressions\<close>

text \<open>
  Python's \<open>re\<close> is a backtracking matcher. A pattern is modelled by the list of all its
  matches at the start of a string, in the order in which the matcher tries them; each match
  is the captured value and the rest of the string. \<open>re.match\<close> returns the first one.
\<close>

type_synonym 'a rx = "string \<Rightarrow> ('a \<times> string) list"

definition rx_return :: "'a \<Rightarrow> 'a rx" where
  "rx_return a s = [(a, s)]"

definition rx_bind :: "'a rx \<Rightarrow> ('a \<Rightarrow> 'b rx) \<Rightarrow> 'b rx" where
  "rx_bind p f s = concat (map (\<lambda>(a, r). f a r) (p s))"

definition rx_alt :: "'a rx \<Rightarrow> 'a rx \<Rightarrow> 'a rx" where
  "rx_alt p q s = p s @ q s"

definition rx_opt :: "'a rx \<Rightarrow> 'a option rx" where
  "rx_opt p s = map (\<lambda>(a, r). (Some a, r)) (p s) @ [(None, s)]"

definition rx_class :: "(char \<Rightarrow> bool) \<Rightarrow> char rx" where
  "rx_class P s = (case s of [] \<Rightarrow> [] | c # r \<Rightarrow> if P c then [(c, r)] else [])"

primrec rx_count :: "nat \<Rightarrow> (char \<Rightarrow> bool) \<Rightarrow> string rx" where
  "rx_count 0 P = rx_return []"
| "rx_count (Suc n) P =
     rx_bind (rx_class P) (\<lambda>c. rx_bind (rx_count n P) (\<lambda>cs. rx_return (c # cs)))"

text \<open>Greedy \<open>X*\<close> and \<open>X+\<close> over a character class: the longest run first, then each
  shorter one.\<close>

fun rx_star :: "(char \<Rightarrow> bool) \<Rightarrow> string rx" where
  "rx_star P [] = [([], [])]"
| "rx_star P (c # r) =
     (if P c then map (\<lambda>(m, r'). (c # m, r')) (rx_star P r) else []) @ [([], c # r)]"

definition rx_plus :: "(char \<Rightarrow> bool) \<Rightarrow> string rx" where
  "rx_plus P s = filter (\<lambda>(m, r). m \<noteq> []) (rx_star P s)"

text \<open>\<open>$\<close> without \<open>re.MULTILINE\<close>: the end of the string, or just before a final newline.\<close>

definition rx_end :: "unit rx" where
  "rx_end s = (if s = [] \<or> s = [CHR 0x0A] then [((), s)] else [])"

definition re_match :: "'a rx \<Rightarrow> string \<Rightarrow> 'a option" where
  "re_match p s = (case p s of [] \<Rightarrow> None | (a, r) # _ \<Rightarrow> Some a)"

text \<open>\<open>int(s)\<close> on a string of decimal digits, the only strings it is applied to.\<close>

definition int_of :: "string \<Rightarrow> nat" where
  "int_of s = foldl (\<lambda>n c. 10 * n + (of_char c - 48)) 0 s"

section \<open>Dates\<close>

type_synonym date = "nat \<times> nat \<times> nat"

text \<open>
  \<open>datetime(year, month, day)\<close> of the standard library raises \<open>ValueError\<close> unless
  the year is in 1..9999, the month in 1..12 and the day in 1..(days of that month).
\<close>

definition is_leap :: "nat \<Rightarrow> bool" where
  "is_leap y \<longleftrightarrow> y mod 4 = 0 \<and> (y mod 100 \<noteq> 0 \<or> y mod 400 = 0)"

definition days_in_month :: "nat \<Rightarrow> nat \<Rightarrow> nat" where
  "days_in_month y m =
     (if m = 2 then (if is_leap y then 29 else 28)
      else if m = 4 \<or> m = 6 \<or> m = 9 \<or> m = 11 then 30 else 31)"

definition datetime :: "nat \<Rightarrow> nat \<Rightarrow> nat \<Rightarrow> error + date" where
  "datetime y m d =
     (if 1 \<le> y \<and> y \<le> 9999 \<and> 1 \<le> m \<and> m \<le> 12 \<and> 1 \<le> d \<and> d \<le> days_in_month y m
      then Inr (y, m, d) else Inl Value_error)"

text \<open>
  The configuration of a run: the \<open>--parse-only\<close> flag, the calendar date of \<open>self.now\<close>
  (captured once in \<open>__init__\<close>), and the answer of the issue tracker to
  \<open>self.jira.issue(ticket, fields='key')\<close> (\<open>False\<close> where the call raises).
  A heading is localized to midnight of its day in the same time zone as \<open>now\<close>, so it is
  later than \<open>now\<close> exactly when its day is later than the day of \<open>now\<close>.
\<close>

record config =
  parse_only :: bool
  now :: date
  jira_issue :: "string \<Rightarrow> bool"

text \<open>\<open>r'^(?P<year>\d{4})-?(?P<month>\d{2})-?(?P<day>\d{2})$'\<close>\<close>

definition date_re :: "(string \<times> string \<times> string) rx" where
  "date_re =
     rx_bind (rx_count 4 digit) (\<lambda>year.
     rx_bind (rx_opt (rx_class (\<lambda>c. c = CHR ''-''))) (\<lambda>_.
     rx_bind (rx_count 2 digit) (\<lambda>month.
     rx_bind (rx_opt (rx_class (\<lambda>c. c = CHR ''-''))) (\<lambda>_.
     rx_bind (rx_count 2 digit) (\<lambda>day.
     rx_bind rx_end (\<lambda>_.
     rx_return (year, month, day)))))))"

definition parse_date_line :: "config \<Rightarrow> string \<Rightarrow> error + date" where
  "parse_date_line cfg line =
     (case re_match date_re line of
        None \<Rightarrow> Inl Pattern_not_matched
      | Some (year, month, day) \<Rightarrow>
          (case datetime (int_of year) (int_of month) (int_of day) of
             Inl e \<Rightarrow> Inl e
           | Inr date \<Rightarrow> if date > now cfg then Inl Date_in_future else Inr date))"

section \<open>Floating point\<close>

text \<open>
  A Python \<open>float\<close> is an IEEE-754 binary64 number. The parser only meets floats that
  are not negative; a finite one is modelled exactly, by the pair \<open>(a, k)\<close> that stands for
  \<open>a / 2 ^ k\<close>. \<open>float(s)\<close>, \<open>/\<close> on integers and \<open>*\<close> round the exact result to
  the nearest binary64 number, ties to the even significand: 53 significant bits, the last
  of weight at least \<open>2 ^ -1074\<close>, and infinity from \<open>2 ^ 1024\<close> on.
\<close>

type_synonym float = "nat \<times> nat"

fun log2 :: "nat \<Rightarrow> nat" where
  "log2 n = (if n < 2 then 0 else Suc (log2 (n div 2)))"

declare log2.simps [simp del]

text \<open>The integer \<open>e\<close> with \<open>2 ^ e \<le> n / d < 2 ^ (e + 1)\<close>, for positive \<open>n\<close> and \<open>d\<close>.\<close>

definition exponent :: "nat \<Rightarrow> nat \<Rightarrow> int" where
  "exponent n d =
     (if d \<le> n then int (log2 (n div d)) else - int (Suc (log2 ((d - 1) div n))))"

text \<open>The integer nearest to \<open>n / d\<close>, the even one of two that are equally near.\<close>

definition round_half_even :: "nat \<Rightarrow> nat \<Rightarrow> nat" where
  "round_half_even n d =
     (let q = n div d; r = n mod d
      in if 2 * r < d then q else if d < 2 * r then q + 1 else if even q then q else q + 1)"

text \<open>The float nearest to \<open>n / d\<close>; \<open>None\<close> is infinity.\<close>

definition float_of_ratio :: "nat \<Rightarrow> nat \<Rightarrow> float option" where
  "float_of_ratio n d =
     (if n = 0 then Some (0, 0)
      else
        let u = max (exponent n d - 52) (- 1074)
        in if 0 \<le> u
           then (let x = round_half_even n (d * 2 ^ nat u) * 2 ^ nat u
                 in if 2 ^ 1024 \<le> x then None else Some (x, 0))
           else Some (round_half_even (n * 2 ^ nat (- u)) d, nat (- u)))"

text \<open>The number \<open>n / d\<close> that a decimal numeral \<open>digits\<close>, \<open>digits.digits\<close> or
  \<open>.digits\<close> denotes, as the pair \<open>(n, d)\<close>.\<close>

definition decimal :: "string \<Rightarrow> nat \<times> nat" where
  "decimal s =
     (let ip = takeWhile (\<lambda>c. c \<noteq> CHR ''.'') s;
          fp = drop 1 (dropWhile (\<lambda>c. c \<noteq> CHR ''.'') s)
      in (int_of (ip @ fp), 10 ^ length fp))"

text \<open>\<open>float(s)\<close> for such a numeral.\<close>

definition float_of_str :: "string \<Rightarrow> float option" where
  "float_of_str s = (case decimal s of (n, d) \<Rightarrow> float_of_ratio n d)"

text \<open>The integer part of a float; \<open>math.floor(x)\<close> raises \<open>OverflowError\<close> on infinity.\<close>

definition float_floor :: "float \<Rightarrow> nat" where
  "float_floor x = (case x of (a, k) \<Rightarrow> a div 2 ^ k)"

definition math_floor :: "float option \<Rightarrow> error + nat" where
  "math_floor x = (case x of None \<Rightarrow> Inl Float_overflow | Some y \<Rightarrow> Inr (float_floor y))"

text \<open>\<open>x % 1\<close> for a finite \<open>x\<close> that is not negative: exact.\<close>

definition mod_1 :: "float \<Rightarrow> float" where
  "mod_1 x = (case x of (a, k) \<Rightarrow> (a mod 2 ^ k, k))"

text \<open>\<open>n * x\<close> for an integer \<open>n\<close> below \<open>2 ^ 53\<close>.\<close>

definition float_times :: "nat \<Rightarrow> float \<Rightarrow> float option" where
  "float_times n x = (case x of (a, k) \<Rightarrow> float_of_ratio (n * a) (2 ^ k))"

section \<open>Time-log lines\<close>

text \<open>\<open>r'^[A-Z][A-Z0-9]+-\d+$'\<close> with \<open>re.IGNORECASE\<close>; the value is \<open>group(0)\<close>.\<close>

definition ticket_re :: "string rx" where
  "ticket_re =
     rx_bind (rx_class letter) (\<lambda>c.
     rx_bind (rx_plus (\<lambda>c. letter c \<or> digit c)) (\<lambda>cs.
     rx_bind (rx_class (\<lambda>c. c = CHR ''-'')) (\<lambda>_.
     rx_bind (rx_plus digit) (\<lambda>ds.
     rx_bind rx_end (\<lambda>_.
     rx_return (c # cs @ ''-'' @ ds))))))"

text \<open>\<open>'^(\d+\.\d+|\.\d+|\d+)\s*H?$'\<close> with \<open>re.IGNORECASE\<close>; the value is \<open>group(1)\<close>.\<close>

definition dec_hours_re :: "string rx" where
  "dec_hours_re =
     rx_bind
       (rx_alt
          (rx_bind (rx_plus digit) (\<lambda>a.
           rx_bind (rx_class (\<lambda>c. c = CHR ''.'')) (\<lambda>_.
           rx_bind (rx_plus digit) (\<lambda>b.
           rx_return (a @ ''.'' @ b)))))
          (rx_alt
             (rx_bind (rx_class (\<lambda>c. c = CHR ''.'')) (\<lambda>_.
              rx_bind (rx_plus digit) (\<lambda>b.
              rx_return (''.'' @ b))))
             (rx_plus digit)))
       (\<lambda>g.
     rx_bind (rx_star space) (\<lambda>_.
     rx_bind (rx_opt (rx_class (\<lambda>c. c = CHR ''H'' \<or> c = CHR ''h''))) (\<lambda>_.
     rx_bind rx_end (\<lambda>_.
     rx_return g))))"

text \<open>\<open>r'((?P<hours>\d+)\s*H)?\s*((?P<minutes>\d+)\s*M)?'\<close> with \<open>re.IGNORECASE\<close>;
  the value is the pair of the groups \<open>hours\<close> and \<open>minutes\<close>.\<close>

definition hours_mins_re :: "(string option \<times> string option) rx" where
  "hours_mins_re =
     rx_bind
       (rx_opt
          (rx_bind (rx_plus digit) (\<lambda>h.
           rx_bind (rx_star space) (\<lambda>_.
           rx_bind (rx_class (\<lambda>c. c = CHR ''H'' \<or> c = CHR ''h'')) (\<lambda>_.
           rx_return h)))))
       (\<lambda>hours.
     rx_bind (rx_star space) (\<lambda>_.
     rx_bind
       (rx_opt
          (rx_bind (rx_plus digit) (\<lambda>m.
           rx_bind (rx_star space) (\<lambda>_.
           rx_bind (rx_class (\<lambda>c. c = CHR ''M'' \<or> c = CHR ''m'')) (\<lambda>_.
           rx_return m)))))
       (\<lambda>minutes.
     rx_return (hours, minutes))))"

text \<open>
  The middle of \<open>parse_time_log_line\<close>: the values of \<open>hours\<close> and \<open>minutes\<close> just
  before the test \<open>if not hours and not minutes\<close>.
\<close>

definition hours_minutes :: "string \<Rightarrow> error + nat \<times> nat" where
  "hours_minutes time_str =
     (case re_match dec_hours_re time_str of
        Some g \<Rightarrow>
          (let dec_hours = float_of_str g
           in case math_floor dec_hours of
                Inl e \<Rightarrow> Inl e
              | Inr hours \<Rightarrow>
                  (case math_floor (float_times 60 (mod_1 (the dec_hours))) of
                     Inl e \<Rightarrow> Inl e
                   | Inr minutes \<Rightarrow> Inr (hours, minutes)))
      | None \<Rightarrow>
          (case re_match hours_mins_re time_str of
             Some (h, m) \<Rightarrow>
               Inr (case h of None \<Rightarrow> 0 | Some s \<Rightarrow> int_of s,
                    case m of None \<Rightarrow> 0 | Some s \<Rightarrow> int_of s)
           | None \<Rightarrow> Inr (0, 0)))"

text \<open>The same with the test: a duration of zero is \<open>'Time pattern not matched'\<close>.\<close>

definition parse_time :: "string \<Rightarrow> error + nat \<times> nat" where
  "parse_time time_str =
     (case hours_minutes time_str of
        Inl e \<Rightarrow> Inl e
      | Inr (hours, minutes) \<Rightarrow>
          if hours = 0 \<and> minutes = 0 then Inl Time_pattern_not_matched
          else Inr (hours, minutes))"

section \<open>The parser state\<close>

datatype mode = Date | Time_log | Date_or_time_log

record time =
  hours :: nat
  minutes :: nat

record log =
  date :: "date option"
  ticket :: string
  description :: string
  time :: time

text \<open>
  The attributes of \<open>LogJammin\<close> that parsing reads and writes. \<open>logs\<close> and \<open>tickets\<close>
  are lists created once, in the class body, and changed in place ever after.
\<close>

record state =
  mode :: mode
  current_date :: "date option"
  logs :: "log list"
  tickets :: "string list"

definition initial :: state where
  "initial = \<lparr>mode = Date, current_date = None, logs = [], tickets = []\<rparr>"

definition assert_ticket_exists :: "config \<Rightarrow> string \<Rightarrow> state \<Rightarrow> (error + unit) \<times> state" where
  "assert_ticket_exists cfg t st =
     (if t \<in> set (tickets st) then (Inr (), st)
      else if jira_issue cfg t then (Inr (), st\<lparr>tickets := tickets st @ [t]\<rparr>)
      else (Inl (Ticket_lookup_failed t), st))"

definition parse_time_log_line ::
    "config \<Rightarrow> string \<Rightarrow> state \<Rightarrow> (error + string \<times> (nat \<times> nat) \<times> string) \<times> state" where
  "parse_time_log_line cfg line st =
     (let parts = split_max CHR '','' 2 line;
          ticket_str = strip (parts ! 0);
          time_str = (if 1 < length parts then strip (parts ! 1) else []);
          description = (if 2 < length parts then strip (parts ! 2) else [])
      in case re_match ticket_re ticket_str of
           None \<Rightarrow> (Inl Ticket_pattern_not_matched, st)
         | Some g \<Rightarrow>
             (let ticket = upper g
              in case parse_time time_str of
                   Inl e \<Rightarrow> (Inl e, st)
                 | Inr tm \<Rightarrow>
                     if parse_only cfg then (Inr (ticket, tm, description), st)
                     else (case assert_ticket_exists cfg ticket st of
                             (Inl e, st1) \<Rightarrow> (Inl e, st1)
                           | (Inr _, st1) \<Rightarrow> (Inr (ticket, tm, description), st1))))"

definition add_log :: "string \<Rightarrow> nat \<times> nat \<Rightarrow> string \<Rightarrow> state \<Rightarrow> state" where
  "add_log t tm d st =
     st\<lparr>logs := logs st @
       [\<lparr>date = current_date st, ticket = t, description = d,
         time = \<lparr>hours = fst tm, minutes = snd tm\<rparr>\<rparr>]\<rparr>"

section \<open>The line classifier\<close>

text \<open>
  \<open>parse_line\<close>. A call returns nothing; what matters is whether it raises and the state it
  leaves. The state is returned in both cases, since an exception does not undo the
  assignments made before it. In the mode \<open>date_or_time_log\<close> the method calls itself, first
  with the mode set to \<open>date\<close>, then with the mode set to \<open>time_log\<close>. The last branch of
  the source (\<open>'Invalid mode'\<close>) is not reachable: no assignment gives \<open>self.mode\<close> a
  fourth value.
\<close>

function parse_line :: "config \<Rightarrow> string \<Rightarrow> state \<Rightarrow> (error + unit) \<times> state" where
  "parse_line cfg line st =
     (let normalized_line = normalized line
      in case mode st of
           Date \<Rightarrow>
             (case parse_date_line cfg normalized_line of
                Inr d \<Rightarrow> (Inr (), st\<lparr>current_date := Some d, mode := Time_log\<rparr>)
              | Inl e \<Rightarrow> (Inl (String_invalid line e), st))
         | Time_log \<Rightarrow>
             (case parse_time_log_line cfg normalized_line st of
                (Inr (t, tm, d), st1) \<Rightarrow> (Inr (), (add_log t tm d st1)\<lparr>mode := Date_or_time_log\<rparr>)
              | (Inl e, st1) \<Rightarrow> (Inl (String_invalid line e), st1))
         | Date_or_time_log \<Rightarrow>
             (case parse_line cfg line (st\<lparr>mode := Date\<rparr>) of
                (Inr u, st1) \<Rightarrow> (Inr u, st1)
              | (Inl e, st1) \<Rightarrow>
                  (case parse_line cfg line (st1\<lparr>mode := Time_log\<rparr>) of
                     (Inr u, st2) \<Rightarrow> (Inr u, st2)
                   | (Inl e2, st2) \<Rightarrow> (Inl (String_invalid line e2), st2))))"
  by pat_completeness auto
termination
  by (relation "measure (\<lambda>(cfg, line, st). if mode st = Date_or_time_log then 1 else 0)") auto

declare parse_line.simps [simp del]

section \<open>Loading a file\<close>

text \<open>
  The key of \<open>self.logs.sort\<close>:
  \<open>(k['date'], k['ticket'].split('-')[0], int(k['ticket'].split('-')[1]))\<close>. Tuples
  are compared lexicographically, strings by code points, the last component as a number.
  The key raises where there is no date to compare, no second part of the ticket, or a
  second part that is no number.
\<close>

definition log_key :: "log \<Rightarrow> error + date \<times> string \<times> nat" where
  "log_key k =
     (case date k of
        None \<Rightarrow> Inl Sort_key_error
      | Some d \<Rightarrow>
          (case split CHR ''-'' (ticket k) of
             p # n # _ \<Rightarrow>
               if n \<noteq> [] \<and> list_all digit n then Inr (d, p, int_of n) else Inl Sort_key_error
           | _ \<Rightarrow> Inl Sort_key_error))"

definition the_key :: "log \<Rightarrow> date \<times> string \<times> nat" where
  "the_key k = (case log_key k of Inr x \<Rightarrow> x | Inl _ \<Rightarrow> ((0, 0, 0), [], 0))"

text \<open>\<open>list.sort\<close> is stable, as \<open>sort_key\<close> is.\<close>

definition sort_logs :: "log list \<Rightarrow> error + log list" where
  "sort_logs ls =
     (if list_all (\<lambda>k. \<not> isl (log_key k)) ls then Inr (sort_key the_key ls)
      else Inl Sort_key_error)"

text \<open>The loop of \<open>load_logs\<close> over the lines of the file, \<open>line_no\<close> counting them.\<close>

fun load_lines :: "config \<Rightarrow> nat \<Rightarrow> string list \<Rightarrow> state \<Rightarrow> (error + unit) \<times> state" where
  "load_lines cfg line_no [] st = (Inr (), st)"
| "load_lines cfg line_no (line # rest) st =
     (if strip line = [] then load_lines cfg (line_no + 1) rest st
      else case parse_line cfg line st of
             (Inl e, st1) \<Rightarrow> (Inl (Error_on_line (line_no + 1) e), st1)
           | (Inr _, st1) \<Rightarrow> load_lines cfg (line_no + 1) rest st1)"

text \<open>\<open>load_logs\<close>, from the list \<open>lines\<close> that \<open>fp.read().splitlines()\<close> gives.\<close>

definition load_logs :: "config \<Rightarrow> string list \<Rightarrow> state \<Rightarrow> (error + unit) \<times> state" where
  "load_logs cfg lines st =
     (case load_lines cfg 0 lines st of
        (Inl e, st1) \<Rightarrow> (Inl e, st1)
      | (Inr _, st1) \<Rightarrow>
          (case sort_logs (logs st1) of
             Inl e \<Rightarrow> (Inl e, st1)
           | Inr sorted_logs \<Rightarrow> (Inr (), st1\<lparr>logs := sorted_logs\<rparr>)))"

section \<open>The summary\<close>

text \<open>
  \<open>print_summary\<close> groups the logs by the text of their date in an \<open>OrderedDict\<close>: here a
  list of the dates in the order of their first log, each with its logs and its total of
  minutes. What it prints is returned: for each date the number of its logs and its total
  as hours and minutes, then the number of days, the number of logs and the grand total.
\<close>

primrec add_to_date :: "date \<Rightarrow> log \<Rightarrow> (date \<times> log list \<times> nat) list \<Rightarrow> (date \<times> log list \<times> nat) list"
  where
  "add_to_date d l [] = [(d, [l], 60 * hours (time l) + minutes (time l))]"
| "add_to_date d l (g # gs) =
     (if fst g = d
      then (d, fst (snd g) @ [l], snd (snd g) + 60 * hours (time l) + minutes (time l)) # gs
      else g # add_to_date d l gs)"

fun logs_by_date :: "log list \<Rightarrow> (date \<times> log list \<times> nat) list \<Rightarrow> error + (date \<times> log list \<times> nat) list"
  where
  "logs_by_date [] gs = Inr gs"
| "logs_by_date (l # ls) gs =
     (case date l of
        None \<Rightarrow> Inl Attribute_error
      | Some d \<Rightarrow> logs_by_date ls (add_to_date d l gs))"

text \<open>\<open>math.floor(n / 60)\<close> and \<open>math.floor(n % 60)\<close>; \<open>/\<close> is the division of floats.\<close>

definition hours_and_minutes :: "nat \<Rightarrow> error + nat \<times> nat" where
  "hours_and_minutes n =
     (case math_floor (float_of_ratio n 60) of
        Inl e \<Rightarrow> Inl e
      | Inr h \<Rightarrow> Inr (h, n mod 60))"

fun date_totals :: "(date \<times> log list \<times> nat) list \<Rightarrow> error + (date \<times> nat \<times> nat \<times> nat) list" where
  "date_totals [] = Inr []"
| "date_totals ((d, ls, n) # gs) =
     (case hours_and_minutes n of
        Inl e \<Rightarrow> Inl e
      | Inr hm \<Rightarrow>
          (case date_totals gs of
             Inl e \<Rightarrow> Inl e
           | Inr ts \<Rightarrow> Inr ((d, length ls, hm) # ts)))"

record summary =
  by_date :: "(date \<times> nat \<times> nat \<times> nat) list"
  days :: nat
  number_of_logs :: nat
  sum_total :: "nat \<times> nat"

definition print_summary :: "log list \<Rightarrow> error + summary" where
  "print_summary ls =
     (case logs_by_date ls [] of
        Inl e \<Rightarrow> Inl e
      | Inr gs \<Rightarrow>
          (case date_totals gs of
             Inl e \<Rightarrow> Inl e
           | Inr ts \<Rightarrow>
               (case hours_and_minutes (sum_list (map (\<lambda>g. snd (snd g)) gs)) of
                  Inl e \<Rightarrow> Inl e
                | Inr hm \<Rightarrow>
                    Inr \<lparr>by_date = ts, days = length gs, number_of_logs = length ls,
                         sum_total = hm\<rparr>)))"

text \<open>
  \<open>__init__\<close> from \<open>load_logs\<close> to \<open>print_summary\<close>, in a fresh process: any exception
  of \<open>load_logs\<close> ends the process with its message, as does an empty list of logs. The
  result is the list of logs and the summary printed. (What follows in the source, the
  upload, is not modelled.)
\<close>

definition run :: "config \<Rightarrow> string list \<Rightarrow> error + log list \<times> summary" where
  "run cfg lines =
     (case load_logs cfg lines initial of
        (Inl e, st) \<Rightarrow> Inl e
      | (Inr _, st) \<Rightarrow>
          if logs st = [] then Inl No_logs_found
          else (case print_summary (logs st) of
                  Inl e \<Rightarrow> Inl e
                | Inr s \<Rightarrow> Inr (logs st, s)))"

section \<open>States a run can reach\<close>

text \<open>
  Every log has a sort key, and unless the mode is \<open>date\<close> there is a current date.
\<close>

definition wf :: "state \<Rightarrow> bool" where
  "wf st \<longleftrightarrow> (\<forall>l \<in> set (logs st). \<not> isl (log_key l)) \<and> (mode st \<noteq> Date \<longrightarrow> current_date st \<noteq> None)"


text \<open>
  What \<open>parse_time_log_line\<close> returns for a line when it does not ask the issue tracker.
\<close>

definition parse_only_fields :: "string \<Rightarrow> error + string \<times> (nat \<times> nat) \<times> string" where
  "parse_only_fields l =
     fst (parse_time_log_line \<lparr>parse_only = True, now = (0, 0, 0), jira_issue = (\<lambda>_. False)\<rparr> l
       initial)"

text \<open>
  The shape of a line as the date pattern sees it: each character is a digit, a hyphen or
  something else. The four shapes are those with eight digits and a hyphen, or none, after
  the fourth and after the sixth digit.
\<close>

datatype kind = Digit | Hyphen | Other

definition kind :: "char \<Rightarrow> kind" where
  "kind c = (if digit c then Digit else if c = CHR ''-'' then Hyphen else Other)"

definition date_shape :: "string \<Rightarrow> bool" where
  "date_shape s \<longleftrightarrow>
     map kind s \<in> set [[Digit, Digit, Digit, Digit, Hyphen, Digit, Digit, Hyphen, Digit, Digit], [Digit, Digit, Digit, Digit, Digit, Digit, Digit, Digit],
                        [Digit, Digit, Digit, Digit, Hyphen, Digit, Digit, Digit, Digit], [Digit, Digit, Digit, Digit, Digit, Digit, Hyphen, Digit, Digit]]"

text \<open>Two states with the same mode and the same current date.\<close>

definition same_cursor :: "state \<Rightarrow> state \<Rightarrow> bool" where
  "same_cursor sa sb \<longleftrightarrow> mode sa = mode sb \<and> current_date sa = current_date sb"

text \<open>
  The duration that the specification gives for a decimal numeral: the integer part of its
  value as hours, and the integer part of sixty times the fractional part of its value as
  minutes, both taken of the number the numeral denotes.
\<close>

definition exact_hours_minutes :: "string \<Rightarrow> nat \<times> nat" where
  "exact_hours_minutes g = (case decimal g of (n, d) \<Rightarrow> (n div d, (60 * (n mod d)) div d))"

text \<open>
  A line that is not blank and that the date pattern does not match: in a file that loads,
  these are the lines of the time entries.
\<close>

definition entry_line :: "string \<Rightarrow> bool" where
  "entry_line l \<longleftrightarrow> strip l \<noteq> [] \<and> re_match date_re (normalized l) = None"

text \<open>Two states with the same mode, the same current date and the same logs.\<close>

definition agree :: "state \<Rightarrow> state \<Rightarrow> bool" where
  "agree sa sb \<longleftrightarrow> same_cursor sa sb \<and> logs sa = logs sb"

section \<open>Facts about the matcher\<close>

lemma rx_bind_set: "set (rx_bind p f s) = (\<Union>(a, r) \<in> set (p s). set (f a r))"
  by (auto simp: rx_bind_def)

lemma rx_return_set: "set (rx_return a s) = {(a, s)}"
  by (simp add: rx_return_def)

lemma rx_class_set: "set (rx_class P s) = {(c, r). s = c # r \<and> P c}"
  by (auto simp: rx_class_def split: list.splits)

lemma rx_end_set: "set (rx_end s) = {(u, r). r = s \<and> (s = [] \<or> s = [CHR 0x0A])}"
  by (auto simp: rx_end_def)

lemma rx_alt_set: "set (rx_alt p q s) = set (p s) \<union> set (q s)"
  by (simp add: rx_alt_def)

lemma rx_opt_set: "set (rx_opt p s) = (\<lambda>(a, r). (Some a, r)) ` set (p s) \<union> {(None, s)}"
  by (simp add: rx_opt_def)

lemma rx_star_sound: "(m, r) \<in> set (rx_star P s) \<Longrightarrow> s = m @ r \<and> (\<forall>c \<in> set m. P c)"
  by (induction s arbitrary: m) (auto split: if_splits)

lemma rx_plus_sound: "(m, r) \<in> set (rx_plus P s) \<Longrightarrow> s = m @ r \<and> m \<noteq> [] \<and> (\<forall>c \<in> set m. P c)"
  using rx_star_sound [of m r P s] by (auto simp: rx_plus_def)

lemma rx_count_set: "set (rx_count n P s) = {(m, r). s = m @ r \<and> length m = n \<and> (\<forall>c \<in> set m. P c)}"
proof (induction n arbitrary: s)
  case 0
  show ?case by (auto simp: rx_return_set)
next
  case (Suc n)
  show ?case
    by (auto simp: rx_bind_set rx_class_set rx_return_set Suc length_Suc_conv)
qed

lemma re_match_Some: "re_match p s = Some a \<Longrightarrow> \<exists>r. (a, r) \<in> set (p s)"
  by (auto simp: re_match_def split: list.splits)

lemma re_match_None: "re_match p s = None \<longleftrightarrow> p s = []"
  by (auto simp: re_match_def split: list.splits)

section \<open>Facts about the classifier\<close>

lemma parse_line_Date:
  "mode st = Date \<Longrightarrow> parse_line cfg line st =
     (case parse_date_line cfg (normalized line) of
        Inr d \<Rightarrow> (Inr (), st\<lparr>current_date := Some d, mode := Time_log\<rparr>)
      | Inl e \<Rightarrow> (Inl (String_invalid line e), st))"
  by (simp add: parse_line.simps [of cfg line st])

lemma parse_line_Time_log:
  "mode st = Time_log \<Longrightarrow> parse_line cfg line st =
     (case parse_time_log_line cfg (normalized line) st of
        (Inr (t, tm, d), st1) \<Rightarrow> (Inr (), (add_log t tm d st1)\<lparr>mode := Date_or_time_log\<rparr>)
      | (Inl e, st1) \<Rightarrow> (Inl (String_invalid line e), st1))"
  by (simp add: parse_line.simps [of cfg line st])

lemma parse_line_Date_or_time_log:
  "mode st = Date_or_time_log \<Longrightarrow> parse_line cfg line st =
     (case parse_line cfg line (st\<lparr>mode := Date\<rparr>) of
        (Inr u, st1) \<Rightarrow> (Inr u, st1)
      | (Inl e, st1) \<Rightarrow>
          (case parse_line cfg line (st1\<lparr>mode := Time_log\<rparr>) of
             (Inr u, st2) \<Rightarrow> (Inr u, st2)
           | (Inl e2, st2) \<Rightarrow> (Inl (String_invalid line e2), st2)))"
  by (simp add: parse_line.simps [of cfg line st])

lemma assert_ticket_exists_cases:
  "assert_ticket_exists cfg t st = (r, st') \<Longrightarrow>
     (r = Inr () \<and> (st' = st \<or> st' = st\<lparr>tickets := tickets st @ [t]\<rparr> \<and> jira_issue cfg t))
     \<or> (r = Inl (Ticket_lookup_failed t) \<and> st' = st)"
  by (auto simp: assert_ticket_exists_def split: if_splits)

lemma parse_time_log_line_state:
  "parse_time_log_line cfg line st = (r, st') \<Longrightarrow>
     mode st' = mode st \<and> current_date st' = current_date st \<and> logs st' = logs st
     \<and> (isl r \<longrightarrow> st' = st)"
  by (auto simp: parse_time_log_line_def Let_def split: option.splits sum.splits if_splits prod.splits
      dest!: assert_ticket_exists_cases)


lemma parse_line_either:
  assumes "mode st = Date_or_time_log"
  shows "parse_line cfg line st =
     (case parse_date_line cfg (normalized line) of
        Inr d \<Rightarrow> (Inr (), st\<lparr>current_date := Some d, mode := Time_log\<rparr>)
      | Inl _ \<Rightarrow>
          (case parse_time_log_line cfg (normalized line) (st\<lparr>mode := Time_log\<rparr>) of
             (Inr (t, tm, d), st1) \<Rightarrow> (Inr (), (add_log t tm d st1)\<lparr>mode := Date_or_time_log\<rparr>)
           | (Inl e, st1) \<Rightarrow> (Inl (String_invalid line (String_invalid line e)), st1)))"
proof (cases "parse_date_line cfg (normalized line)")
  case (Inr d)
  then show ?thesis
    using assms by (simp add: parse_line_Date_or_time_log parse_line_Date)
next
  case (Inl e)
  then show ?thesis
    using assms
    by (simp add: parse_line_Date_or_time_log parse_line_Date parse_line_Time_log
        split: prod.splits sum.splits)
qed

lemma split_no_sep: "sep \<notin> set s \<Longrightarrow> split sep s = [s]"
  by (induction s) auto

lemma split_append: "sep \<notin> set a \<Longrightarrow> split sep (a @ sep # b) = a # split sep b"
  by (induction a) auto

lemma upper_char_digit: "digit x \<Longrightarrow> upper_char x = x"
  unfolding digit_def upper_char_def by (elim disjE | simp)+

lemma upper_char_hyphen: "upper_char CHR ''-'' = CHR ''-''"
  by (simp add: upper_char_def)

lemma upper_char_not_hyphen:
  assumes "letter x \<or> digit x"
  shows "upper_char x \<noteq> CHR ''-''"
proof (cases "map_of (zip ''abcdefghijklmnopqrstuvwxyz'' ''ABCDEFGHIJKLMNOPQRSTUVWXYZ'') x")
  case None
  then have "upper_char x = x" by (simp add: upper_char_def)
  moreover have "x \<noteq> CHR ''-''" using assms by (auto simp: letter_def digit_def)
  ultimately show ?thesis by simp
next
  case (Some u)
  then have "upper_char x = u" by (simp add: upper_char_def)
  moreover from Some have "u \<in> set ''ABCDEFGHIJKLMNOPQRSTUVWXYZ''"
    by (blast dest: map_of_SomeD set_zip_rightD)
  then have "u \<noteq> CHR ''-''" by auto
  ultimately show ?thesis by simp
qed

lemma upper_not_hyphen:
  assumes "\<forall>x \<in> set s. letter x \<or> digit x"
  shows "CHR ''-'' \<notin> set (upper s)"
proof
  assume "CHR ''-'' \<in> set (upper s)"
  then obtain x where "x \<in> set s" "upper_char x = CHR ''-''" by (auto simp: upper_def)
  with assms upper_char_not_hyphen show False by blast
qed

lemma ticket_re_shape:
  assumes "re_match ticket_re s = Some g"
  shows "\<exists>c cs ds. g = c # cs @ ''-'' @ ds \<and> letter c \<and> cs \<noteq> [] \<and>
           (\<forall>x \<in> set cs. letter x \<or> digit x) \<and> ds \<noteq> [] \<and> (\<forall>x \<in> set ds. digit x)"
proof -
  from re_match_Some [OF assms] obtain r where "(g, r) \<in> set (ticket_re s)" ..
  then show ?thesis
    unfolding ticket_re_def
    by (auto simp: rx_bind_set rx_class_set rx_return_set rx_end_set dest!: rx_plus_sound)
qed

lemma log_key_ticket:
  assumes "re_match ticket_re s = Some g"
  shows "\<not> isl (log_key \<lparr>date = Some d, ticket = upper g, description = x, time = y\<rparr>)"
proof -
  from ticket_re_shape [OF assms] obtain c cs ds where
    g: "g = c # cs @ ''-'' @ ds" and c: "letter c" and cs: "\<forall>x \<in> set cs. letter x \<or> digit x"
    and ds: "ds \<noteq> []" "\<forall>x \<in> set ds. digit x"
    by blast
  have "map upper_char ds = ds"
    using ds(2) by (induction ds) (simp_all add: upper_char_digit)
  then have 1: "upper g = upper (c # cs) @ CHR ''-'' # ds"
    by (simp add: g upper_def upper_char_hyphen)
  have 2: "CHR ''-'' \<notin> set (upper (c # cs))"
    using c cs by (intro upper_not_hyphen) auto
  have "\<not> digit CHR ''-''" by (simp add: digit_def)
  with ds(2) have 3: "CHR ''-'' \<notin> set ds" by blast
  have "split CHR ''-'' (upper g) = [upper (c # cs), ds]"
    unfolding 1 by (simp only: split_append [OF 2] split_no_sep [OF 3])
  then show ?thesis
    using ds by (simp add: log_key_def list_all_iff)
qed

lemma parse_time_log_line_ticket:
  "parse_time_log_line cfg line st = (Inr (t, tm, d), st') \<Longrightarrow> \<exists>s g. re_match ticket_re s = Some g \<and> t = upper g"
  by (auto simp: parse_time_log_line_def Let_def split: option.splits sum.splits if_splits prod.splits)

lemma wf_time_log_step:
  assumes "wf st" and "current_date st \<noteq> None" and "parse_time_log_line cfg l st = (r, st1)"
  shows "case r of Inr (t, tm, d) \<Rightarrow> wf ((add_log t tm d st1)\<lparr>mode := m\<rparr>) | Inl e \<Rightarrow> st1 = st"
proof (cases r)
  case (Inl e)
  with parse_time_log_line_state [OF assms(3)] show ?thesis by simp
next
  case (Inr x)
  obtain t tm d where x: "x = (t, tm, d)" by (cases x) auto
  from assms(3) Inr x parse_time_log_line_ticket obtain s g
    where g: "re_match ticket_re s = Some g" "t = upper g" by blast
  from assms(2) obtain dd where dd: "current_date st = Some dd" by auto
  from parse_time_log_line_state [OF assms(3)]
  have st1: "current_date st1 = current_date st" "logs st1 = logs st" by simp_all
  have "\<not> isl (log_key \<lparr>date = current_date st1, ticket = t, description = d,
      time = \<lparr>hours = fst tm, minutes = snd tm\<rparr>\<rparr>)"
    unfolding st1 dd g(2) by (rule log_key_ticket [OF g(1)])
  with assms(1) st1 dd show ?thesis
    by (simp add: Inr x wf_def add_log_def)
qed

lemma parse_line_wf:
  assumes "wf st" and "parse_line cfg line st = (r, st')"
  shows "wf st'"
proof (cases "mode st")
  case Date
  with assms(2) have "st' = st \<or> (\<exists>d. st' = st\<lparr>current_date := Some d, mode := Time_log\<rparr>)"
    by (auto simp: parse_line_Date split: sum.splits)
  with assms(1) show ?thesis
    by (auto simp: wf_def)
next
  case Time_log
  with assms(1) have cd: "current_date st \<noteq> None" by (simp add: wf_def)
  obtain r1 st1 where p: "parse_time_log_line cfg (normalized line) st = (r1, st1)"
    by (cases "parse_time_log_line cfg (normalized line) st") auto
  from wf_time_log_step [OF assms(1) cd p, of Date_or_time_log] assms p Time_log
  show ?thesis
    by (auto simp: parse_line_Time_log split: sum.splits prod.splits)
next
  case Date_or_time_log
  with assms(1) have cd: "current_date (st\<lparr>mode := Time_log\<rparr>) \<noteq> None"
    and w: "wf (st\<lparr>mode := Time_log\<rparr>)" by (simp_all add: wf_def)
  obtain r1 st1 where p: "parse_time_log_line cfg (normalized line) (st\<lparr>mode := Time_log\<rparr>) = (r1, st1)"
    by (cases "parse_time_log_line cfg (normalized line) (st\<lparr>mode := Time_log\<rparr>)") auto
  show ?thesis
  proof (cases "parse_date_line cfg (normalized line)")
    case (Inr d)
    with assms(2) Date_or_time_log have "st' = st\<lparr>current_date := Some d, mode := Time_log\<rparr>"
      by (simp add: parse_line_either)
    with assms(1) show ?thesis
      by (simp add: wf_def)
  next
    case (Inl e)
    with wf_time_log_step [OF w cd p, of Date_or_time_log] assms p Date_or_time_log w
    show ?thesis
      by (auto simp: parse_line_either split: sum.splits prod.splits)
  qed
qed

lemma load_lines_wf:
  "wf st \<Longrightarrow> load_lines cfg n ls st = (r, st') \<Longrightarrow> wf st'"
proof (induction ls arbitrary: n st)
  case Nil
  then show ?case by simp
next
  case (Cons l ls)
  show ?case
  proof (cases "strip l = []")
    case True
    with Cons show ?thesis by simp
  next
    case False
    obtain r1 st1 where p: "parse_line cfg l st = (r1, st1)"
      by (cases "parse_line cfg l st") auto
    from parse_line_wf [OF Cons.prems(1) p] have w: "wf st1" .
    show ?thesis
    proof (cases r1)
      case (Inl e)
      with Cons.prems p False w show ?thesis by simp
    next
      case (Inr u)
      with Cons.prems p False Cons.IH [OF w] show ?thesis by simp
    qed
  qed
qed

lemma wf_initial: "wf initial"
  by (simp add: wf_def initial_def)

lemma sort_logs_wf: "wf st \<Longrightarrow> sort_logs (logs st) = Inr (sort_key the_key (logs st))"
  by (simp add: sort_logs_def wf_def list_all_iff)


section \<open>Evaluation\<close>

lemmas float_eval = float_of_ratio_def exponent_def log2.simps round_half_even_def Let_def

lemma parse_date_line_ok:
  assumes "re_match date_re s = Some (y, m, d)"
    and "datetime (int_of y) (int_of m) (int_of d) = Inr dt" and "dt \<le> now cfg"
  shows "parse_date_line cfg s = Inr dt"
  using assms by (simp add: parse_date_line_def not_less [symmetric])

lemma parse_date_line_no_match:
  "re_match date_re s = None \<Longrightarrow> parse_date_line cfg s = Inl Pattern_not_matched"
  by (simp add: parse_date_line_def)

lemma parse_time_log_line_parse_only:
  assumes "parse_only cfg"
  shows "parse_time_log_line cfg l st = (parse_only_fields l, st)"
  using assms
  by (simp add: parse_only_fields_def parse_time_log_line_def Let_def split: option.splits sum.splits)

lemma hours_minutes_dec:
  assumes "re_match dec_hours_re s = Some g" and "float_of_str g = Some (a, k)"
    and "float_of_ratio (60 * (a mod 2 ^ k)) (2 ^ k) = Some (b, j)"
  shows "hours_minutes s = Inr (a div 2 ^ k, b div 2 ^ j)"
  using assms
  by (simp add: hours_minutes_def math_floor_def float_floor_def mod_1_def float_times_def)

lemma half_hour: "parse_time ''.5h'' = Inr (0, 30)"
proof -
  have 1: "re_match dec_hours_re ''.5h'' = Some ''.5''" by code_simp
  have "float_of_str ''.5'' = float_of_ratio 5 10"
    by (simp add: float_of_str_def decimal_def int_of_def)
  also have "\<dots> = Some (4503599627370496, 53)" by (simp add: float_eval)
  finally have 2: "float_of_str ''.5'' = Some (4503599627370496, 53)" .
  have 3: "float_of_ratio (60 * (4503599627370496 mod 2 ^ 53)) (2 ^ 53) = Some (8444249301319680, 48)"
    by (simp add: float_eval)
  show ?thesis
    by (simp add: parse_time_def hours_minutes_dec [OF 1 2 3])
qed

lemma c1_line2:
  "parse_only_fields ''PROJ-1, 1h30m, did work'' = Inr (''PROJ-1'', (1, 30), ''did work'')"
  by code_simp

lemma c1_line3:
  "parse_only_fields ''PROJ-2, .5h'' = Inr (''PROJ-2'', (0, 30), [])"
proof -
  have 1: "split_max CHR '','' 2 ''PROJ-2, .5h'' = [''PROJ-2'', '' .5h'']" by code_simp
  have 2: "strip ''PROJ-2'' = ''PROJ-2''" by code_simp
  have 3: "strip '' .5h'' = ''.5h''" by code_simp
  have 4: "re_match ticket_re ''PROJ-2'' = Some ''PROJ-2''" by code_simp
  have 5: "upper ''PROJ-2'' = ''PROJ-2''" by code_simp
  show ?thesis
    by (simp add: parse_only_fields_def parse_time_log_line_def 1 2 3 4 5 half_hour)
qed

lemma c1_line5:
  "parse_only_fields ''PROJ-1, 45m'' = Inr (''PROJ-1'', (0, 45), [])"
  by code_simp


lemma c1_sort:
  "sort_logs
    [\<lparr>date = Some (2024, 1, 5), ticket = ''PROJ-1'', description = ''did work'',
        time = \<lparr>hours = 1, minutes = 30\<rparr>\<rparr>,
     \<lparr>date = Some (2024, 1, 5), ticket = ''PROJ-2'', description = [],
        time = \<lparr>hours = 0, minutes = 30\<rparr>\<rparr>,
     \<lparr>date = Some (2024, 1, 6), ticket = ''PROJ-1'', description = [],
        time = \<lparr>hours = 0, minutes = 45\<rparr>\<rparr>] = 
   Inr [\<lparr>date = Some (2024, 1, 5), ticket = ''PROJ-1'', description = ''did work'',
        time = \<lparr>hours = 1, minutes = 30\<rparr>\<rparr>,
     \<lparr>date = Some (2024, 1, 5), ticket = ''PROJ-2'', description = [],
        time = \<lparr>hours = 0, minutes = 30\<rparr>\<rparr>,
     \<lparr>date = Some (2024, 1, 6), ticket = ''PROJ-1'', description = [],
        time = \<lparr>hours = 0, minutes = 45\<rparr>\<rparr>]"
  by code_simp

lemma c1_summary:
  "print_summary
    [\<lparr>date = Some (2024, 1, 5), ticket = ''PROJ-1'', description = ''did work'',
        time = \<lparr>hours = 1, minutes = 30\<rparr>\<rparr>,
     \<lparr>date = Some (2024, 1, 5), ticket = ''PROJ-2'', description = [],
        time = \<lparr>hours = 0, minutes = 30\<rparr>\<rparr>,
     \<lparr>date = Some (2024, 1, 6), ticket = ''PROJ-1'', description = [],
        time = \<lparr>hours = 0, minutes = 45\<rparr>\<rparr>] = 
   Inr \<lparr>by_date = [((2024, 1, 5), 2, 2, 0), ((2024, 1, 6), 1, 0, 45)],
         days = 2, number_of_logs = 3, sum_total = (2, 45)\<rparr>"
  by (simp add: print_summary_def hours_and_minutes_def math_floor_def float_floor_def float_eval)

lemma load_lines_step:
  "strip line \<noteq> [] \<Longrightarrow> parse_line cfg line st = (Inr (), st1) \<Longrightarrow>
     load_lines cfg n (line # rest) st = load_lines cfg (Suc n) rest st1"
  by simp

section \<open>Facts about dates\<close>

lemma sub_spaces_chars: "c \<in> set (sub_spaces b s) \<Longrightarrow> space c \<Longrightarrow> c = CHR '' ''"
  by (induction b s rule: sub_spaces.induct) (auto split: if_splits)

lemma normalized_no_newline: "CHR 0x0A \<notin> set (normalized l)"
proof
  assume "CHR 0x0A \<in> set (normalized l)"
  moreover have "space CHR 0x0A" by (simp add: space_def)
  ultimately have "CHR 0x0A = CHR '' ''"
    unfolding normalized_def by (rule sub_spaces_chars)
  then show False by simp
qed

lemma rx_count_eq:
  "rx_count n P s =
     (if n \<le> length s \<and> (\<forall>c \<in> set (take n s). P c) then [(take n s, drop n s)] else [])"
proof (induction n arbitrary: s)
  case 0
  show ?case by (simp add: rx_return_def)
next
  case (Suc n)
  show ?case
    by (cases s) (auto simp: Suc rx_bind_def rx_class_def rx_return_def)
qed

lemma rx_opt_hyphen:
  "rx_opt (rx_class (\<lambda>c. c = CHR ''-'')) s =
     (case s of c # r \<Rightarrow> if c = CHR ''-'' then [(Some c, r), (None, s)] else [(None, s)]
      | [] \<Rightarrow> [(None, s)])"
  by (simp add: rx_opt_def rx_class_def split: list.splits)

lemma rx_bindE:
  assumes "(b, r) \<in> set (rx_bind p f s)"
  obtains a r1 where "(a, r1) \<in> set (p s)" and "(b, r) \<in> set (f a r1)"
  using assms by (auto simp: rx_bind_set)

lemma rx_opt_hyphen_sound:
  assumes "(h, r) \<in> set (rx_opt (rx_class (\<lambda>c. c = CHR ''-'')) s)"
  shows "\<exists>h1. s = h1 @ r \<and> (h1 = [] \<or> h1 = ''-'')"
  using assms by (auto simp: rx_opt_set rx_class_set)

lemma date_re_sound:
  assumes "re_match date_re s = Some (y, m, d)"
  shows "\<exists>h1 h2 r. s = y @ h1 @ m @ h2 @ d @ r \<and> length y = 4 \<and> length m = 2 \<and> length d = 2
     \<and> (\<forall>c \<in> set (y @ m @ d). digit c)
     \<and> (h1 = [] \<or> h1 = ''-'') \<and> (h2 = [] \<or> h2 = ''-'') \<and> (r = [] \<or> r = [CHR 0x0A])"
proof -
  from re_match_Some [OF assms] obtain r where "((y, m, d), r) \<in> set (date_re s)" ..
  then obtain y' r1 where 1: "(y', r1) \<in> set (rx_count 4 digit s)"
    and b1: "((y, m, d), r) \<in> set (
     rx_bind (rx_opt (rx_class (\<lambda>c. c = CHR ''-''))) (\<lambda>_.
     rx_bind (rx_count 2 digit) (\<lambda>month.
     rx_bind (rx_opt (rx_class (\<lambda>c. c = CHR ''-''))) (\<lambda>_.
     rx_bind (rx_count 2 digit) (\<lambda>day.
     rx_bind rx_end (\<lambda>_.
     rx_return (y', month, day)))))) r1)"
    unfolding date_re_def by (rule rx_bindE)
  from b1 obtain o1 r2 where 2: "(o1, r2) \<in> set (rx_opt (rx_class (\<lambda>c. c = CHR ''-'')) r1)"
    and b2: "((y, m, d), r) \<in> set (
     rx_bind (rx_count 2 digit) (\<lambda>month.
     rx_bind (rx_opt (rx_class (\<lambda>c. c = CHR ''-''))) (\<lambda>_.
     rx_bind (rx_count 2 digit) (\<lambda>day.
     rx_bind rx_end (\<lambda>_.
     rx_return (y', month, day))))) r2)"
    by (rule rx_bindE)
  from b2 obtain m' r3 where 3: "(m', r3) \<in> set (rx_count 2 digit r2)"
    and b3: "((y, m, d), r) \<in> set (
     rx_bind (rx_opt (rx_class (\<lambda>c. c = CHR ''-''))) (\<lambda>_.
     rx_bind (rx_count 2 digit) (\<lambda>day.
     rx_bind rx_end (\<lambda>_.
     rx_return (y', m', day)))) r3)"
    by (rule rx_bindE)
  from b3 obtain o2 r4 where 4: "(o2, r4) \<in> set (rx_opt (rx_class (\<lambda>c. c = CHR ''-'')) r3)"
    and b4: "((y, m, d), r) \<in> set (
     rx_bind (rx_count 2 digit) (\<lambda>day.
     rx_bind rx_end (\<lambda>_.
     rx_return (y', m', day))) r4)"
    by (rule rx_bindE)
  from b4 obtain d' r5 where 5: "(d', r5) \<in> set (rx_count 2 digit r4)"
    and b5: "((y, m, d), r) \<in> set (rx_bind rx_end (\<lambda>_. rx_return (y', m', d')) r5)"
    by (rule rx_bindE)
  from b5 have 6: "y' = y" "m' = m" "d' = d" "r5 = [] \<or> r5 = [CHR 0x0A]"
    by (auto simp: rx_bind_set rx_end_set rx_return_set)
  from 2 obtain h1 where h1: "r1 = h1 @ r2" "h1 = [] \<or> h1 = ''-''"
    using rx_opt_hyphen_sound by blast
  from 4 obtain h2 where h2: "r3 = h2 @ r4" "h2 = [] \<or> h2 = ''-''"
    using rx_opt_hyphen_sound by blast
  from 1 3 5 have "s = y' @ r1" "length y' = 4" "\<forall>c \<in> set y'. digit c"
    "r2 = m' @ r3" "length m' = 2" "\<forall>c \<in> set m'. digit c"
    "r4 = d' @ r5" "length d' = 2" "\<forall>c \<in> set d'. digit c"
    by (simp_all add: rx_count_set)
  with 6 h1 h2 show ?thesis
    by (rule_tac x = h1 in exI, rule_tac x = h2 in exI, rule_tac x = r5 in exI) auto
qed

lemma kind_digits: "\<forall>c \<in> set s. digit c \<Longrightarrow> map kind s = replicate (length s) Digit"
  by (induction s) (simp_all add: kind_def)

lemma kind_hyphen: "kind CHR ''-'' = Hyphen"
  by (simp add: kind_def digit_def)

lemma date_re_shape:
  assumes "re_match date_re s = Some (y, m, d)" and "CHR 0x0A \<notin> set s"
  shows "date_shape s"
proof -
  from date_re_sound [OF assms(1)] obtain h1 h2 r where
    s: "s = y @ h1 @ m @ h2 @ d @ r" and l: "length y = 4" "length m = 2" "length d = 2"
    and dg: "\<forall>c \<in> set y. digit c" "\<forall>c \<in> set m. digit c" "\<forall>c \<in> set d. digit c"
    and h: "h1 = [] \<or> h1 = ''-''" "h2 = [] \<or> h2 = ''-''" and r: "r = [] \<or> r = [CHR 0x0A]"
    by auto
  from r assms(2) s have r: "r = []" by auto
  have "map kind s = replicate 4 Digit @ map kind h1 @ replicate 2 Digit @ map kind h2 @ replicate 2 Digit"
    using kind_digits [OF dg(1)] kind_digits [OF dg(2)] kind_digits [OF dg(3)] l
    by (simp add: s r)
  with h show ?thesis
    by (auto simp: date_shape_def kind_hyphen numeral_eq_Suc)
qed


lemma kind_D: "kind c = Digit \<longleftrightarrow> digit c"
  by (simp add: kind_def)

lemma kind_H: "kind c = Hyphen \<longleftrightarrow> c = CHR ''-''"
  by (simp add: kind_def digit_def)

lemma digit_not_hyphen: "digit c \<Longrightarrow> c \<noteq> CHR ''-''"
  by (auto simp: digit_def)

lemma date_shape_match:
  assumes "date_shape s"
  shows "re_match date_re s \<noteq> None"
proof -
  note defs = re_match_def date_re_def rx_bind_def rx_count_eq rx_opt_hyphen rx_end_def
    rx_return_def digit_not_hyphen
  from assms consider
      "map kind s = [Digit, Digit, Digit, Digit, Hyphen, Digit, Digit, Hyphen, Digit, Digit]" | "map kind s = [Digit, Digit, Digit, Digit, Digit, Digit, Digit, Digit]"
    | "map kind s = [Digit, Digit, Digit, Digit, Hyphen, Digit, Digit, Digit, Digit]" | "map kind s = [Digit, Digit, Digit, Digit, Digit, Digit, Hyphen, Digit, Digit]"
    by (auto simp: date_shape_def)
  then show ?thesis
  proof cases
    case 1
    then show ?thesis
      by (clarsimp simp: map_eq_Cons_conv kind_D kind_H) (simp add: defs)
  next
    case 2
    then show ?thesis
      by (clarsimp simp: map_eq_Cons_conv kind_D kind_H) (simp add: defs)
  next
    case 3
    then show ?thesis
      by (clarsimp simp: map_eq_Cons_conv kind_D kind_H) (simp add: defs)
  next
    case 4
    then show ?thesis
      by (clarsimp simp: map_eq_Cons_conv kind_D kind_H) (simp add: defs)
  qed
qed


lemma digit_not_letter: "digit c \<Longrightarrow> \<not> letter c"
  by (auto simp: digit_def letter_def)

lemma digit_not_space: "digit c \<Longrightarrow> \<not> space c"
  by (auto simp: digit_def space_def)

lemma digit_not_comma: "digit c \<Longrightarrow> c \<noteq> CHR '',''"
  by (auto simp: digit_def)

lemma strip_id: "\<forall>c \<in> set s. \<not> space c \<Longrightarrow> strip s = s"
proof -
  assume a: "\<forall>c \<in> set s. \<not> space c"
  have "dropWhile space xs = xs" if "\<forall>c \<in> set xs. \<not> space c" for xs
    using that by (cases xs) auto
  from this [of s] this [of "rev s"] a show ?thesis by (simp add: strip_def)
qed

lemma date_line_not_time_log:
  assumes "re_match date_re s = Some (y, m, d)" and "CHR 0x0A \<notin> set s"
  shows "parse_time_log_line cfg s st = (Inl Ticket_pattern_not_matched, st)"
proof -
  from date_re_sound [OF assms(1)] obtain h1 h2 r where
    s: "s = y @ h1 @ m @ h2 @ d @ r" and l: "length y = 4"
    and dg: "\<forall>c \<in> set y. digit c" "\<forall>c \<in> set m. digit c" "\<forall>c \<in> set d. digit c"
    and h: "h1 = [] \<or> h1 = ''-''" "h2 = [] \<or> h2 = ''-''" and r: "r = [] \<or> r = [CHR 0x0A]"
    by auto
  from r assms(2) s have r: "r = []" by auto
  have chars: "digit c \<or> c = CHR ''-''" if "c \<in> set s" for c
    using that dg h by (auto simp: s r)
  have 1: "CHR '','' \<notin> set s"
    using chars digit_not_comma by fastforce
  have "\<not> space CHR ''-''" by (simp add: space_def)
  then have 2: "\<forall>c \<in> set s. \<not> space c"
    using chars digit_not_space by blast
  from l obtain c y' where "y = c # y'" by (cases y) auto
  with dg(1) s have "s = c # (y' @ h1 @ m @ h2 @ d @ r)" and "\<not> letter c"
    by (simp_all add: digit_not_letter)
  then have "ticket_re s = []"
    by (simp add: ticket_re_def rx_bind_def rx_class_def)
  then have 3: "re_match ticket_re s = None"
    by (simp add: re_match_def)
  show ?thesis
    using 1 by (simp add: parse_time_log_line_def eval_nat_numeral strip_id [OF 2] 3)
qed

lemma normalized_strip: "strip l = [] \<Longrightarrow> normalized l = []"
  by (simp add: normalized_def)

section \<open>Facts about the loop\<close>

lemma parse_line_error:
  assumes "parse_line cfg line st = (Inl err, st')"
  shows "\<exists>e. err = String_invalid line e \<and> logs st' = logs st
    \<and> current_date st' = current_date st \<and> tickets st' = tickets st"
proof (cases "mode st")
  case Date
  with assms show ?thesis
    by (auto simp: parse_line_Date split: sum.splits)
next
  case Time_log
  with assms show ?thesis
    by (auto simp: parse_line_Time_log split: sum.splits prod.splits
        dest!: parse_time_log_line_state)
next
  case Date_or_time_log
  with assms show ?thesis
    by (auto simp: parse_line_either split: sum.splits prod.splits
        dest!: parse_time_log_line_state)
qed

lemma load_lines_error:
  assumes "load_lines cfg n ls st = (Inl err, st')"
  shows "\<exists>k e st1. k < length ls \<and> err = Error_on_line (n + k + 1) (String_invalid (ls ! k) e)
    \<and> load_lines cfg n (take k ls) st = (Inr (), st1) \<and> logs st' = logs st1"
  using assms
proof (induction ls arbitrary: n st)
  case Nil
  then show ?case by simp
next
  case (Cons l ls)
  show ?case
  proof (cases "strip l = []")
    case True
    with Cons.prems have "load_lines cfg (n + 1) ls st = (Inl err, st')" by simp
    from Cons.IH [OF this] obtain k e st1 where
      "k < length ls" "err = Error_on_line (n + 1 + k + 1) (String_invalid (ls ! k) e)"
      "load_lines cfg (n + 1) (take k ls) st = (Inr (), st1)" "logs st' = logs st1"
      by blast
    with True show ?thesis
      by (intro exI [of _ "Suc k"] exI [of _ e] exI [of _ st1]) simp
  next
    case False
    obtain r1 s1 where p: "parse_line cfg l st = (r1, s1)"
      by (cases "parse_line cfg l st") auto
    show ?thesis
    proof (cases r1)
      case (Inl e0)
      with Cons.prems False p have e: "err = Error_on_line (n + 1) e0" "st' = s1" by simp_all
      from parse_line_error [OF p [unfolded Inl]] obtain e where
        "e0 = String_invalid l e" "logs s1 = logs st" by blast
      with e show ?thesis
        by (intro exI [of _ 0] exI [of _ e] exI [of _ st]) simp
    next
      case (Inr u)
      with Cons.prems False p have "load_lines cfg (n + 1) ls s1 = (Inl err, st')" by simp
      from Cons.IH [OF this] obtain k e st1 where
        "k < length ls" "err = Error_on_line (n + 1 + k + 1) (String_invalid (ls ! k) e)"
        "load_lines cfg (n + 1) (take k ls) s1 = (Inr (), st1)" "logs st' = logs st1"
        by blast
      with False p Inr show ?thesis
        by (intro exI [of _ "Suc k"] exI [of _ e] exI [of _ st1]) simp
    qed
  qed
qed


lemma parse_time_log_line_unfold:
  "parse_time_log_line cfg l st =
     (case parse_only_fields l of
        Inl e \<Rightarrow> (Inl e, st)
      | Inr x \<Rightarrow>
          if parse_only cfg then (Inr x, st)
          else (case assert_ticket_exists cfg (fst x) st of
                  (Inl e, st1) \<Rightarrow> (Inl e, st1)
                | (Inr _, st1) \<Rightarrow> (Inr x, st1)))"
  by (simp add: parse_only_fields_def parse_time_log_line_def Let_def
      split: option.splits sum.splits)

lemma load_logs_ok:
  assumes "wf st" and "load_lines cfg 0 lines st = (Inr u, st1)"
  shows "load_logs cfg lines st = (Inr (), st1\<lparr>logs := sort_key the_key (logs st1)\<rparr>)"
  using assms sort_logs_wf [OF load_lines_wf [OF assms]]
  by (simp add: load_logs_def)

lemma load_logs_cases:
  assumes "wf st"
  shows "load_logs cfg lines st =
    (case load_lines cfg 0 lines st of
       (Inl e, st1) \<Rightarrow> (Inl e, st1)
     | (Inr _, st1) \<Rightarrow> (Inr (), st1\<lparr>logs := sort_key the_key (logs st1)\<rparr>))"
proof (cases "load_lines cfg 0 lines st")
  case (Pair r st1)
  then show ?thesis
    using sort_logs_wf [OF load_lines_wf [OF assms Pair]]
    by (simp add: load_logs_def split: sum.splits)
qed

lemma c3_example:
  "load_logs \<lparr>parse_only = True, now = (2024, 1, 6), jira_issue = (\<lambda>_. False)\<rparr>
     [''2024-01-05'', ''PROJ-1, 1h30m'', ''oops''] initial =
   (Inl (Error_on_line 3
      (String_invalid ''oops'' (String_invalid ''oops'' Ticket_pattern_not_matched))),
    \<lparr>mode = Time_log, current_date = Some (2024, 1, 5),
      logs = [\<lparr>date = Some (2024, 1, 5), ticket = ''PROJ-1'', description = [],
                time = \<lparr>hours = 1, minutes = 30\<rparr>\<rparr>],
      tickets = []\<rparr>)"
  by code_simp

lemma c8_example:
  "load_logs \<lparr>parse_only = True, now = (2024, 1, 6), jira_issue = (\<lambda>_. False)\<rparr>
     [''2024-01-05'', ''PROJ-10, 1h30m'', ''PROJ-9, 45m''] initial =
   (Inr (),
    \<lparr>mode = Date_or_time_log, current_date = Some (2024, 1, 5),
      logs = [\<lparr>date = Some (2024, 1, 5), ticket = ''PROJ-9'', description = [],
                time = \<lparr>hours = 0, minutes = 45\<rparr>\<rparr>,
              \<lparr>date = Some (2024, 1, 5), ticket = ''PROJ-10'', description = [],
                time = \<lparr>hours = 1, minutes = 30\<rparr>\<rparr>],
      tickets = []\<rparr>)"
  by code_simp

section \<open>Facts about two runs\<close>

lemma parse_date_line_Inr:
  assumes "parse_date_line cfg s = Inr d"
  shows "\<exists>y m dd. re_match date_re s = Some (y, m, dd)
    \<and> datetime (int_of y) (int_of m) (int_of dd) = Inr d"
  using assms
  by (auto simp: parse_date_line_def split: option.splits sum.splits if_splits)

lemma parse_date_line_same:
  assumes "parse_date_line c1 s = Inr d1" and "parse_date_line c2 s = Inr d2"
  shows "d1 = d2"
  using parse_date_line_Inr [OF assms(1)] parse_date_line_Inr [OF assms(2)] by auto

lemma time_log_ok_fields:
  assumes "parse_time_log_line cfg s st = (Inr x, st')"
  shows "parse_only_fields s = Inr x"
  using assms
  by (auto simp: parse_time_log_line_unfold split: sum.splits if_splits prod.splits)

lemma time_log_ok_not_date:
  assumes "parse_time_log_line cfg (normalized l) st = (Inr x, st')"
  shows "re_match date_re (normalized l) = None"
proof (cases "re_match date_re (normalized l)")
  case None
  then show ?thesis .
next
  case (Some ymd)
  obtain y m d where "ymd = (y, m, d)" by (cases ymd) auto
  with Some date_line_not_time_log [OF _ normalized_no_newline, of l y m d cfg st] assms
  show ?thesis by simp
qed

lemma time_log_two:
  assumes "current_date sa = current_date sb" and "logs sa = logs sb"
    and a: "parse_time_log_line c1 (normalized l) sa = (Inr (t, tm, d), sa1)"
    and b: "parse_time_log_line c2 (normalized l) sb = (Inr (t', tm', d'), sb1)"
  shows "agree ((add_log t tm d sa1)\<lparr>mode := Date_or_time_log\<rparr>)
               ((add_log t' tm' d' sb1)\<lparr>mode := Date_or_time_log\<rparr>)
    \<and> length (logs ((add_log t tm d sa1)\<lparr>mode := Date_or_time_log\<rparr>)) = length (logs sa) + 1
    \<and> re_match date_re (normalized l) = None"
proof -
  from time_log_ok_fields [OF a] time_log_ok_fields [OF b]
  have "t' = t" "tm' = tm" "d' = d" by simp_all
  moreover from parse_time_log_line_state [OF a] parse_time_log_line_state [OF b] assms(1,2)
  have "current_date sa1 = current_date sb1" "logs sa1 = logs sb1" "logs sa1 = logs sa"
    by simp_all
  ultimately show ?thesis
    using time_log_ok_not_date [OF a]
    by (simp add: agree_def same_cursor_def add_log_def)
qed

lemma parse_line_two:
  assumes g: "agree sa sb"
    and a: "parse_line c1 l sa = (Inr u, sa')" and b: "parse_line c2 l sb = (Inr v, sb')"
  shows "agree sa' sb'
    \<and> length (logs sa') =
        length (logs sa) + (if re_match date_re (normalized l) = None then 1 else 0)"
proof (cases "mode sa")
  case Date
  with g have mb: "mode sb = Date" by (simp add: agree_def same_cursor_def)
  from a Date obtain d1 where d1: "parse_date_line c1 (normalized l) = Inr d1"
    and sa': "sa' = sa\<lparr>current_date := Some d1, mode := Time_log\<rparr>"
    by (auto simp: parse_line_Date split: sum.splits)
  from b mb obtain d2 where d2: "parse_date_line c2 (normalized l) = Inr d2"
    and sb': "sb' = sb\<lparr>current_date := Some d2, mode := Time_log\<rparr>"
    by (auto simp: parse_line_Date split: sum.splits)
  from parse_date_line_same [OF d1 d2] parse_date_line_Inr [OF d1] g show ?thesis
    by (auto simp: sa' sb' agree_def same_cursor_def)
next
  case Time_log
  with g have mb: "mode sb = Time_log" by (simp add: agree_def same_cursor_def)
  from a Time_log obtain t tm d sa1 where
    pa: "parse_time_log_line c1 (normalized l) sa = (Inr (t, tm, d), sa1)"
    and sa': "sa' = (add_log t tm d sa1)\<lparr>mode := Date_or_time_log\<rparr>"
    by (auto simp: parse_line_Time_log split: sum.splits prod.splits)
  from b mb obtain t' tm' d' sb1 where
    pb: "parse_time_log_line c2 (normalized l) sb = (Inr (t', tm', d'), sb1)"
    and sb': "sb' = (add_log t' tm' d' sb1)\<lparr>mode := Date_or_time_log\<rparr>"
    by (auto simp: parse_line_Time_log split: sum.splits prod.splits)
  from g have "current_date sa = current_date sb" "logs sa = logs sb"
    by (simp_all add: agree_def same_cursor_def)
  from time_log_two [OF this pa pb] show ?thesis
    by (simp add: sa' sb')
next
  case Date_or_time_log
  with g have mb: "mode sb = Date_or_time_log" by (simp add: agree_def same_cursor_def)
  let ?sa = "sa\<lparr>mode := Time_log\<rparr>" and ?sb = "sb\<lparr>mode := Time_log\<rparr>"
  have date_case: "re_match date_re (normalized l) \<noteq> None \<Longrightarrow>
      \<exists>d. parse_date_line c (normalized l) = Inr d \<and> s' = s\<lparr>current_date := Some d, mode := Time_log\<rparr>"
    if "mode s = Date_or_time_log" and "parse_line c l s = (Inr w, s')" for c s s' w
  proof -
    assume m: "re_match date_re (normalized l) \<noteq> None"
    then obtain y mm d where "re_match date_re (normalized l) = Some (y, mm, d)" by auto
    note nt = date_line_not_time_log [OF this normalized_no_newline]
    from that nt show ?thesis
      by (auto simp: parse_line_either split: sum.splits)
  qed
  have entry_case: "re_match date_re (normalized l) = None \<Longrightarrow>
      \<exists>t tm d s1. parse_time_log_line c (normalized l) (s\<lparr>mode := Time_log\<rparr>) = (Inr (t, tm, d), s1)
        \<and> s' = (add_log t tm d s1)\<lparr>mode := Date_or_time_log\<rparr>"
    if "mode s = Date_or_time_log" and "parse_line c l s = (Inr w, s')" for c s s' w
  proof -
    assume "re_match date_re (normalized l) = None"
    then have "parse_date_line c (normalized l) = Inl Pattern_not_matched"
      by (rule parse_date_line_no_match)
    with that show ?thesis
      by (auto simp: parse_line_either split: sum.splits prod.splits)
  qed
  show ?thesis
  proof (cases "re_match date_re (normalized l) = None")
    case True
    from entry_case [OF Date_or_time_log a True] obtain t tm d sa1 where
      pa: "parse_time_log_line c1 (normalized l) ?sa = (Inr (t, tm, d), sa1)"
      and sa': "sa' = (add_log t tm d sa1)\<lparr>mode := Date_or_time_log\<rparr>"
      by blast
    from entry_case [OF mb b True] obtain t' tm' d' sb1 where
      pb: "parse_time_log_line c2 (normalized l) ?sb = (Inr (t', tm', d'), sb1)"
      and sb': "sb' = (add_log t' tm' d' sb1)\<lparr>mode := Date_or_time_log\<rparr>"
      by blast
    from g have "current_date ?sa = current_date ?sb" "logs ?sa = logs ?sb"
      by (simp_all add: agree_def same_cursor_def)
    from time_log_two [OF this pa pb] show ?thesis
      by (simp add: sa' sb')
  next
    case False
    from date_case [OF Date_or_time_log a False] obtain d1 where
      d1: "parse_date_line c1 (normalized l) = Inr d1"
      and sa': "sa' = sa\<lparr>current_date := Some d1, mode := Time_log\<rparr>"
      by blast
    from date_case [OF mb b False] obtain d2 where
      d2: "parse_date_line c2 (normalized l) = Inr d2"
      and sb': "sb' = sb\<lparr>current_date := Some d2, mode := Time_log\<rparr>"
      by blast
    from parse_date_line_same [OF d1 d2] False g show ?thesis
      by (auto simp: sa' sb' agree_def same_cursor_def)
  qed
qed

lemma load_lines_two:
  assumes "agree sa sb"
    and "load_lines c1 n ls sa = (Inr u, sa')" and "load_lines c2 n' ls sb = (Inr v, sb')"
  shows "agree sa' sb' \<and> length (logs sa') = length (logs sa) + length (filter entry_line ls)"
  using assms
proof (induction ls arbitrary: n n' sa sb)
  case Nil
  then show ?case by simp
next
  case (Cons l ls)
  show ?case
  proof (cases "strip l = []")
    case True
    with Cons.prems have "load_lines c1 (n + 1) ls sa = (Inr u, sa')"
      "load_lines c2 (n' + 1) ls sb = (Inr v, sb')" by simp_all
    from Cons.IH [OF Cons.prems(1) this] True show ?thesis
      by (simp add: entry_line_def)
  next
    case False
    obtain r1 s1 where pa: "parse_line c1 l sa = (r1, s1)" by (cases "parse_line c1 l sa") auto
    obtain r2 s2 where pb: "parse_line c2 l sb = (r2, s2)" by (cases "parse_line c2 l sb") auto
    from Cons.prems(2) False pa have ra: "r1 = Inr ()"
      and la: "load_lines c1 (n + 1) ls s1 = (Inr u, sa')"
      by (auto split: sum.splits)
    from Cons.prems(3) False pb have rb: "r2 = Inr ()"
      and lb: "load_lines c2 (n' + 1) ls s2 = (Inr v, sb')"
      by (auto split: sum.splits)
    from parse_line_two [OF Cons.prems(1) pa [unfolded ra] pb [unfolded rb]]
    have g: "agree s1 s2"
      and len: "length (logs s1) =
        length (logs sa) + (if re_match date_re (normalized l) = None then 1 else 0)"
      by simp_all
    from Cons.IH [OF g la lb] len False show ?thesis
      by (simp add: entry_line_def)
  qed
qed

lemma c9_first:
  "load_logs \<lparr>parse_only = True, now = (2024, 1, 6), jira_issue = (\<lambda>_. False)\<rparr>
     [''2024-01-05'', '''', ''PROJ-1, 1h30m''] initial =
   (Inr (),
    \<lparr>mode = Date_or_time_log, current_date = Some (2024, 1, 5),
      logs = [\<lparr>date = Some (2024, 1, 5), ticket = ''PROJ-1'', description = [],
                time = \<lparr>hours = 1, minutes = 30\<rparr>\<rparr>],
      tickets = []\<rparr>)"
  by code_simp

lemma c9_second:
  "load_logs \<lparr>parse_only = False, now = (2024, 2, 1), jira_issue = (\<lambda>_. True)\<rparr>
     [''2024-01-05'', '''', ''PROJ-1, 1h30m''] initial =
   (Inr (),
    \<lparr>mode = Date_or_time_log, current_date = Some (2024, 1, 5),
      logs = [\<lparr>date = Some (2024, 1, 5), ticket = ''PROJ-1'', description = [],
                time = \<lparr>hours = 1, minutes = 30\<rparr>\<rparr>],
      tickets = [''PROJ-1'']\<rparr>)"
  by code_simp

section \<open>Facts about floats\<close>
















lemma example_exact_1_999: "exact_hours_minutes ''1.999'' = (1, 59)"
  by (simp add: exact_hours_minutes_def decimal_def int_of_def)

section \<open>The claims\<close>

text \<open>
  C1. For the five-line example of the specification a parse-only run succeeds, whatever
  the issue tracker would say, as long as the clock is not before 2024-01-06. It yields
  exactly three entries, in the order PROJ-1 and PROJ-2 of 2024-01-05, then PROJ-1 of
  2024-01-06. The summary has two dates: 2024-01-05 with 2 logs and 2 hours 0 minutes,
  2024-01-06 with 1 log and 0 hours 45 minutes; the sum total is 2 days, 3 logs, 2 hours
  45 minutes.
\<close>

theorem c1_end_to_end:
  assumes "parse_only cfg" and "(2024, 1, 6) \<le> now cfg"
  shows "run cfg [''2024-01-05'', ''PROJ-1, 1h30m, did work'', ''PROJ-2, .5h'', ''2024-01-06'',
           ''PROJ-1, 45m''] =
    Inr ([\<lparr>date = Some (2024, 1, 5), ticket = ''PROJ-1'', description = ''did work'',
            time = \<lparr>hours = 1, minutes = 30\<rparr>\<rparr>,
          \<lparr>date = Some (2024, 1, 5), ticket = ''PROJ-2'', description = [],
            time = \<lparr>hours = 0, minutes = 30\<rparr>\<rparr>,
          \<lparr>date = Some (2024, 1, 6), ticket = ''PROJ-1'', description = [],
            time = \<lparr>hours = 0, minutes = 45\<rparr>\<rparr>],
         \<lparr>by_date = [((2024, 1, 5), 2, 2, 0), ((2024, 1, 6), 1, 0, 45)],
           days = 2, number_of_logs = 3, sum_total = (2, 45)\<rparr>)"
proof -
  have now5: "(2024, 1, 5) \<le> now cfg"
    using assms(2) by (rule order_trans [rotated]) simp
  have d1: "parse_date_line cfg ''2024-01-05'' = Inr (2024, 1, 5)"
  proof (rule parse_date_line_ok [OF _ _ now5])
    show "re_match date_re ''2024-01-05'' = Some (''2024'', ''01'', ''05'')" by code_simp
    show "datetime (int_of ''2024'') (int_of ''01'') (int_of ''05'') = Inr (2024, 1, 5)"
      by (simp add: int_of_def datetime_def days_in_month_def)
  qed
  have d4: "parse_date_line cfg ''2024-01-06'' = Inr (2024, 1, 6)"
  proof (rule parse_date_line_ok [OF _ _ assms(2)])
    show "re_match date_re ''2024-01-06'' = Some (''2024'', ''01'', ''06'')" by code_simp
    show "datetime (int_of ''2024'') (int_of ''01'') (int_of ''06'') = Inr (2024, 1, 6)"
      by (simp add: int_of_def datetime_def days_in_month_def)
  qed
  have n: "normalized ''2024-01-05'' = ''2024-01-05''"
    "normalized ''PROJ-1, 1h30m, did work'' = ''PROJ-1, 1h30m, did work''"
    "normalized ''PROJ-2, .5h'' = ''PROJ-2, .5h''"
    "normalized ''2024-01-06'' = ''2024-01-06''"
    "normalized ''PROJ-1, 45m'' = ''PROJ-1, 45m''"
    by code_simp+
  have s: "strip ''2024-01-05'' \<noteq> []" "strip ''PROJ-1, 1h30m, did work'' \<noteq> []"
    "strip ''PROJ-2, .5h'' \<noteq> []" "strip ''2024-01-06'' \<noteq> []" "strip ''PROJ-1, 45m'' \<noteq> []"
    by code_simp+
  note t = parse_time_log_line_parse_only [OF assms(1)] c1_line2 c1_line3 c1_line5
  have "re_match date_re ''PROJ-2, .5h'' = None" "re_match date_re ''PROJ-1, 45m'' = None"
    by code_simp+
  note nd = this [THEN parse_date_line_no_match]
  have "load_lines cfg 0 [''2024-01-05'', ''PROJ-1, 1h30m, did work'', ''PROJ-2, .5h'',
      ''2024-01-06'', ''PROJ-1, 45m''] initial =
    (Inr (), \<lparr>mode = Date_or_time_log, current_date = Some (2024, 1, 6),
       logs = [\<lparr>date = Some (2024, 1, 5), ticket = ''PROJ-1'', description = ''did work'',
            time = \<lparr>hours = 1, minutes = 30\<rparr>\<rparr>,
          \<lparr>date = Some (2024, 1, 5), ticket = ''PROJ-2'', description = [],
            time = \<lparr>hours = 0, minutes = 30\<rparr>\<rparr>,
          \<lparr>date = Some (2024, 1, 6), ticket = ''PROJ-1'', description = [],
            time = \<lparr>hours = 0, minutes = 45\<rparr>\<rparr>], tickets = []\<rparr>)"
    by (simp add: initial_def s n d1 d4 t nd add_log_def
        parse_line_Date parse_line_Time_log parse_line_either del: One_nat_def)
  then show ?thesis
    by (simp add: run_def load_logs_def c1_sort c1_summary del: One_nat_def)
qed

theorem c1_end_to_end_witness:
  "parse_only \<lparr>parse_only = True, now = (2024, 1, 6), jira_issue = (\<lambda>_. False)\<rparr>
   \<and> (2024, 1, 6) \<le> now \<lparr>parse_only = True, now = (2024, 1, 6), jira_issue = (\<lambda>_. False)\<rparr>
   \<and> run \<lparr>parse_only = True, now = (2024, 1, 6), jira_issue = (\<lambda>_. False)\<rparr>
        [''2024-01-05'', ''PROJ-1, 1h30m, did work'', ''PROJ-2, .5h'', ''2024-01-06'',
         ''PROJ-1, 45m''] =
    Inr ([\<lparr>date = Some (2024, 1, 5), ticket = ''PROJ-1'', description = ''did work'',
            time = \<lparr>hours = 1, minutes = 30\<rparr>\<rparr>,
          \<lparr>date = Some (2024, 1, 5), ticket = ''PROJ-2'', description = [],
            time = \<lparr>hours = 0, minutes = 30\<rparr>\<rparr>,
          \<lparr>date = Some (2024, 1, 6), ticket = ''PROJ-1'', description = [],
            time = \<lparr>hours = 0, minutes = 45\<rparr>\<rparr>],
         \<lparr>by_date = [((2024, 1, 5), 2, 2, 0), ((2024, 1, 6), 1, 0, 45)],
           days = 2, number_of_logs = 3, sum_total = (2, 45)\<rparr>)"
proof -
  have h1: "parse_only \<lparr>parse_only = True, now = (2024, 1, 6), jira_issue = (\<lambda>_. False)\<rparr>"
    by simp
  have h2: "(2024, 1, 6) \<le> now \<lparr>parse_only = True, now = (2024, 1, 6), jira_issue = (\<lambda>_. False)\<rparr>"
    by simp
  from h1 h2 c1_end_to_end [OF h1 h2] show ?thesis by blast
qed

text \<open>
  C2. In the mode \<open>date_or_time_log\<close> a line that is not blank is first read as a date
  heading; if that succeeds the date becomes the current date, the mode becomes
  \<open>time_log\<close> and the loop goes on. Only if it fails is the same line read as a time entry;
  if that succeeds, an entry with the current date is appended, the mode is
  \<open>date_or_time_log\<close> again and the loop goes on. If both fail, the loop stops with the
  error of the second attempt: the failure of the time entry with the text of the line,
  wrapped once more with the text of the line, under the number of the line counted
  from 1.
\<close>

theorem c2_ordered_backtracking:
  assumes "mode st = Date_or_time_log" and "strip line \<noteq> []"
  shows "load_lines cfg n (line # rest) st =
     (case parse_date_line cfg (normalized line) of
        Inr d \<Rightarrow> load_lines cfg (n + 1) rest (st\<lparr>current_date := Some d, mode := Time_log\<rparr>)
      | Inl _ \<Rightarrow>
          (case parse_time_log_line cfg (normalized line) (st\<lparr>mode := Time_log\<rparr>) of
             (Inr (t, tm, d), st1) \<Rightarrow>
               load_lines cfg (n + 1) rest
                 (st1\<lparr>logs := logs st @
                    [\<lparr>date = current_date st, ticket = t, description = d,
                      time = \<lparr>hours = fst tm, minutes = snd tm\<rparr>\<rparr>],
                    mode := Date_or_time_log\<rparr>)
           | (Inl e, st1) \<Rightarrow>
               (Inl (Error_on_line (n + 1) (String_invalid line (String_invalid line e))),
                st\<lparr>mode := Time_log\<rparr>)))"
proof (cases "parse_date_line cfg (normalized line)")
  case (Inr d)
  with assms show ?thesis by (simp add: parse_line_either)
next
  case (Inl e)
  obtain r st1 where p: "parse_time_log_line cfg (normalized line) (st\<lparr>mode := Time_log\<rparr>) = (r, st1)"
    by (cases "parse_time_log_line cfg (normalized line) (st\<lparr>mode := Time_log\<rparr>)") auto
  from parse_time_log_line_state [OF p]
  have st1: "current_date st1 = current_date st" "logs st1 = logs st" "isl r \<longrightarrow> st1 = st\<lparr>mode := Time_log\<rparr>"
    by simp_all
  show ?thesis
  proof (cases r)
    case (Inl e2)
    with assms \<open>parse_date_line cfg (normalized line) = Inl e\<close> p st1 show ?thesis
      by (simp add: parse_line_either)
  next
    case (Inr x)
    with assms \<open>parse_date_line cfg (normalized line) = Inl e\<close> p st1 show ?thesis
      by (simp add: parse_line_either add_log_def split: prod.splits)
  qed
qed


theorem c2_ordered_backtracking_witness:
  "mode \<lparr>mode = Date_or_time_log, current_date = Some (2024, 1, 5), logs = [], tickets = []\<rparr>
     = Date_or_time_log
   \<and> strip ''oops'' \<noteq> []
   \<and> load_lines \<lparr>parse_only = True, now = (2024, 1, 6), jira_issue = (\<lambda>_. False)\<rparr> 4 [''oops'']
        \<lparr>mode = Date_or_time_log, current_date = Some (2024, 1, 5), logs = [], tickets = []\<rparr> =
      (Inl (Error_on_line 5
         (String_invalid ''oops'' (String_invalid ''oops'' Ticket_pattern_not_matched))),
       \<lparr>mode = Time_log, current_date = Some (2024, 1, 5), logs = [], tickets = []\<rparr>)"
proof -
  have h1: "mode \<lparr>mode = Date_or_time_log, current_date = Some (2024, 1, 5), logs = [],
      tickets = []\<rparr> = Date_or_time_log"
    by simp
  have h2: "strip ''oops'' \<noteq> []" by code_simp
  have n: "normalized ''oops'' = ''oops''" by code_simp
  have "re_match date_re ''oops'' = None" by code_simp
  note e1 = this [THEN parse_date_line_no_match]
  have e2: "parse_only_fields ''oops'' = Inl Ticket_pattern_not_matched" by code_simp
  show ?thesis
    using h1 h2
      c2_ordered_backtracking [OF h1 h2,
        of "\<lparr>parse_only = True, now = (2024, 1, 6), jira_issue = (\<lambda>_. False)\<rparr>" 4 "[]"]
    by (simp add: n e1 e2 parse_time_log_line_parse_only)
qed

text \<open>
  C6. Whenever the hours and the minutes computed from a time string are both zero, the
  time string is refused with \<open>'Time pattern not matched'\<close>, whichever of the two patterns
  gave the zeros. \<open>0h0m\<close> is not matched by the decimal pattern and gets its zeros from
  the pattern of hours and minutes; \<open>0\<close> is matched by the decimal pattern; both are
  refused.
\<close>

theorem c6_zero_duration_rejected:
  "(hours_minutes s = Inr (0, 0) \<longrightarrow> parse_time s = Inl Time_pattern_not_matched)
   \<and> re_match dec_hours_re ''0h0m'' = None
   \<and> parse_time ''0h0m'' = Inl Time_pattern_not_matched
   \<and> re_match dec_hours_re ''0'' = Some ''0''
   \<and> parse_time ''0'' = Inl Time_pattern_not_matched"
proof -
  have 1: "hours_minutes s = Inr (0, 0) \<longrightarrow> parse_time s = Inl Time_pattern_not_matched"
    by (simp add: parse_time_def)
  have 3: "re_match dec_hours_re ''0h0m'' = None" by code_simp
  have 4: "parse_time ''0h0m'' = Inl Time_pattern_not_matched" by code_simp
  have 5: "re_match dec_hours_re ''0'' = Some ''0''" by code_simp
  have 6: "parse_time ''0'' = Inl Time_pattern_not_matched" by code_simp
  from 1 3 4 5 6 show ?thesis by blast
qed

theorem c6_zero_duration_rejected_witness:
  "hours_minutes ''0h0m'' = Inr (0, 0) \<and> parse_time ''0h0m'' = Inl Time_pattern_not_matched"
proof -
  have h: "hours_minutes ''0h0m'' = Inr (0, 0)" by code_simp
  from h c6_zero_duration_rejected [of "''0h0m''"] show ?thesis by blast
qed

text \<open>
  C7. The time string \<open>45m later\<close> is not matched by the decimal pattern, and the pattern
  of hours and minutes, which has no anchor at its end, matches its first three characters
  only: the time string is accepted as 45 minutes, and a file with the entry
  \<open>PROJ-1, 45m later\<close> loads without an error.
\<close>

theorem c7_trailing_text_accepted:
  "re_match dec_hours_re ''45m later'' = None
   \<and> re_match hours_mins_re ''45m later'' = Some (None, Some ''45'')
   \<and> parse_time ''45m later'' = Inr (0, 45)
   \<and> fst (load_logs \<lparr>parse_only = True, now = (2024, 1, 5), jira_issue = (\<lambda>_. False)\<rparr>
        [''2024-01-05'', ''PROJ-1, 45m later''] initial) = Inr ()"
  by code_simp

text \<open>
  C4, as stated, fails: the two hyphens of the date pattern are optional one by one, so
  the mixed forms \<open>2024-0105\<close> and \<open>202401-05\<close> are normalized lines that parse as
  the date 2024-01-05.
\<close>

theorem c4_counterexample:
  "normalized ''2024-0105'' = ''2024-0105''
   \<and> parse_date_line \<lparr>parse_only = True, now = (2024, 1, 6), jira_issue = (\<lambda>_. False)\<rparr>
        ''2024-0105'' = Inr (2024, 1, 5)
   \<and> normalized ''202401-05'' = ''202401-05''
   \<and> parse_date_line \<lparr>parse_only = True, now = (2024, 1, 6), jira_issue = (\<lambda>_. False)\<rparr>
        ''202401-05'' = Inr (2024, 1, 5)"
proof -
  have n: "normalized ''2024-0105'' = ''2024-0105''" "normalized ''202401-05'' = ''202401-05''"
    by code_simp+
  have m: "re_match date_re ''2024-0105'' = Some (''2024'', ''01'', ''05'')"
    "re_match date_re ''202401-05'' = Some (''2024'', ''01'', ''05'')"
    by code_simp+
  have d: "datetime (int_of ''2024'') (int_of ''01'') (int_of ''05'') = Inr (2024, 1, 5)"
    by (simp add: int_of_def datetime_def days_in_month_def)
  show ?thesis
    by (simp add: n parse_date_line_ok [OF m(1) d] parse_date_line_ok [OF m(2) d])
qed

text \<open>
  C4, amended. For every normalized line the date pattern matches exactly the lines of
  eight digits with a hyphen, or none, after the fourth digit and a hyphen, or none, after
  the sixth (\<open>YYYY-MM-DD\<close>, \<open>YYYYMMDD\<close>, \<open>YYYY-MMDD\<close>, \<open>YYYYMM-DD\<close>); a line of
  any other shape fails with \<open>'Pattern not matched'\<close>.
\<close>

theorem c4_date_token_shape:
  "(re_match date_re (normalized l) \<noteq> None \<longleftrightarrow> date_shape (normalized l))
   \<and> (\<not> date_shape (normalized l) \<longrightarrow>
        parse_date_line cfg (normalized l) = Inl Pattern_not_matched)"
proof -
  have 1: "re_match date_re (normalized l) \<noteq> None \<longleftrightarrow> date_shape (normalized l)"
    using date_re_shape [OF _ normalized_no_newline, of l] date_shape_match [of "normalized l"]
    by auto
  have "parse_date_line cfg (normalized l) = Inl Pattern_not_matched"
    if "\<not> date_shape (normalized l)"
  proof (rule parse_date_line_no_match)
    from that 1 show "re_match date_re (normalized l) = None" by blast
  qed
  with 1 show ?thesis by blast
qed

theorem c4_date_token_shape_witness:
  "re_match date_re (normalized ''2024-0105'') \<noteq> None
   \<and> date_shape (normalized ''2024-0105'')
   \<and> \<not> date_shape (normalized ''2024-01-5'')
   \<and> parse_date_line \<lparr>parse_only = True, now = (2024, 1, 6), jira_issue = (\<lambda>_. False)\<rparr>
        (normalized ''2024-01-5'') = Inl Pattern_not_matched"
proof -
  have h1: "re_match date_re (normalized ''2024-0105'') \<noteq> None" by code_simp
  have h2: "\<not> date_shape (normalized ''2024-01-5'')" by code_simp
  from h1 h2 c4_date_token_shape [of "''2024-0105''"]
    c4_date_token_shape [of "''2024-01-5''"
      "\<lparr>parse_only = True, now = (2024, 1, 6), jira_issue = (\<lambda>_. False)\<rparr>"]
  show ?thesis by blast
qed

text \<open>
  C10. A line that matches the date pattern but whose month or day is out of range for
  the calendar makes the date parser raise \<open>ValueError\<close>. Whatever the mode, the loop of
  \<open>load_logs\<close> stops at this line with an error that carries the number of the line and
  its text, and the current date and the logs stay as they were.
\<close>

theorem c10_invalid_calendar_date:
  assumes "re_match date_re (normalized line) = Some (y, m, d)"
    and "\<not> (1 \<le> int_of m \<and> int_of m \<le> 12 \<and> 1 \<le> int_of d
             \<and> int_of d \<le> days_in_month (int_of y) (int_of m))"
  shows "parse_date_line cfg (normalized line) = Inl Value_error
    \<and> (\<exists>e st'. load_lines cfg n (line # rest) st =
           (Inl (Error_on_line (n + 1) (String_invalid line e)), st')
         \<and> current_date st' = current_date st \<and> logs st' = logs st)"
proof -
  from assms have 1: "parse_date_line cfg (normalized line) = Inl Value_error"
    by (simp add: parse_date_line_def datetime_def)
  note 2 = date_line_not_time_log [OF assms(1) normalized_no_newline]
  from assms(1) have "normalized line \<noteq> []"
    by (auto simp: re_match_def date_re_def rx_bind_def rx_return_def eval_nat_numeral rx_class_def)
  with normalized_strip have 3: "strip line \<noteq> []" by blast
  have "\<exists>e st'. load_lines cfg n (line # rest) st =
           (Inl (Error_on_line (n + 1) (String_invalid line e)), st')
         \<and> current_date st' = current_date st \<and> logs st' = logs st"
  proof (cases "mode st")
    case Date
    with 1 3 show ?thesis by (simp add: parse_line_Date)
  next
    case Time_log
    with 2 3 show ?thesis by (simp add: parse_line_Time_log)
  next
    case Date_or_time_log
    with 1 2 3 show ?thesis by (simp add: parse_line_either)
  qed
  with 1 show ?thesis by simp
qed

theorem c10_invalid_calendar_date_witness:
  "re_match date_re (normalized ''2024-13-01'') = Some (''2024'', ''13'', ''01'')
   \<and> \<not> (1 \<le> int_of ''13'' \<and> int_of ''13'' \<le> 12 \<and> 1 \<le> int_of ''01''
          \<and> int_of ''01'' \<le> days_in_month (int_of ''2024'') (int_of ''13''))
   \<and> parse_date_line \<lparr>parse_only = True, now = (2024, 1, 6), jira_issue = (\<lambda>_. False)\<rparr>
        (normalized ''2024-13-01'') = Inl Value_error
   \<and> (\<exists>e st'. load_lines \<lparr>parse_only = True, now = (2024, 1, 6), jira_issue = (\<lambda>_. False)\<rparr> 0
          [''2024-13-01''] initial =
           (Inl (Error_on_line (0 + 1) (String_invalid ''2024-13-01'' e)), st')
         \<and> current_date st' = current_date initial \<and> logs st' = logs initial)"
proof -
  have h1: "re_match date_re (normalized ''2024-13-01'') = Some (''2024'', ''13'', ''01'')"
    by code_simp
  have h2: "\<not> (1 \<le> int_of ''13'' \<and> int_of ''13'' \<le> 12 \<and> 1 \<le> int_of ''01''
          \<and> int_of ''01'' \<le> days_in_month (int_of ''2024'') (int_of ''13''))"
    by (simp add: int_of_def)
  from h1 h2 c10_invalid_calendar_date [OF h1 h2] show ?thesis by blast
qed

text \<open>
  C3, as stated, fails: when the third line of a file does not parse, the entry of the
  second line is still in the list of logs after the exception.
\<close>

theorem c3_counterexample:
  "fst (load_logs \<lparr>parse_only = True, now = (2024, 1, 6), jira_issue = (\<lambda>_. False)\<rparr>
     [''2024-01-05'', ''PROJ-1, 1h30m'', ''oops''] initial) =
     Inl (Error_on_line 3
      (String_invalid ''oops'' (String_invalid ''oops'' Ticket_pattern_not_matched)))
   \<and> logs (snd (load_logs \<lparr>parse_only = True, now = (2024, 1, 6), jira_issue = (\<lambda>_. False)\<rparr>
     [''2024-01-05'', ''PROJ-1, 1h30m'', ''oops''] initial)) =
     [\<lparr>date = Some (2024, 1, 5), ticket = ''PROJ-1'', description = [],
                time = \<lparr>hours = 1, minutes = 30\<rparr>\<rparr>]"
  unfolding c3_example by simp

text \<open>
  C3, amended. If a line fails to parse in a run of a fresh process, the run ends with one
  error, which carries the number of the line, counted from 1, and its text. Nothing is
  rolled back: the list of logs then holds, in the order of the file and unsorted, the
  entries of the lines before that line, that is, the logs of the loop run on these lines
  alone.
\<close>

theorem c3_abort_keeps_earlier_entries:
  assumes "load_logs cfg lines initial = (Inl err, st')"
  shows "run cfg lines = Inl err
    \<and> (\<exists>k e st1. k < length lines
          \<and> err = Error_on_line (k + 1) (String_invalid (lines ! k) e)
          \<and> load_lines cfg 0 (take k lines) initial = (Inr (), st1)
          \<and> logs st' = logs st1)"
proof -
  from assms have 1: "run cfg lines = Inl err" by (simp add: run_def)
  from assms have "load_lines cfg 0 lines initial = (Inl err, st')"
    by (auto simp: load_logs_cases [OF wf_initial] split: prod.splits sum.splits)
  from load_lines_error [OF this] 1 show ?thesis by simp
qed

theorem c3_abort_keeps_earlier_entries_witness:
  "load_logs \<lparr>parse_only = True, now = (2024, 1, 6), jira_issue = (\<lambda>_. False)\<rparr>
     [''2024-01-05'', ''PROJ-1, 1h30m'', ''oops''] initial =
   (Inl (Error_on_line 3
      (String_invalid ''oops'' (String_invalid ''oops'' Ticket_pattern_not_matched))),
    \<lparr>mode = Time_log, current_date = Some (2024, 1, 5),
      logs = [\<lparr>date = Some (2024, 1, 5), ticket = ''PROJ-1'', description = [],
                time = \<lparr>hours = 1, minutes = 30\<rparr>\<rparr>],
      tickets = []\<rparr>)
   \<and> run \<lparr>parse_only = True, now = (2024, 1, 6), jira_issue = (\<lambda>_. False)\<rparr>
     [''2024-01-05'', ''PROJ-1, 1h30m'', ''oops''] =
     Inl (Error_on_line 3
      (String_invalid ''oops'' (String_invalid ''oops'' Ticket_pattern_not_matched)))"
  using c3_example c3_abort_keeps_earlier_entries [OF c3_example] by blast

text \<open>
  C8. Whenever \<open>load_logs\<close> returns without an exception, every log has a key, made of
  its date, the part of its ticket before the hyphen and the number after it, and the list
  of logs is sorted by these keys: by date, then by the project prefix as a string, then by
  the number as an integer. With the entries PROJ-10 and PROJ-9 under one date, in this order
  in the file, the list ends with PROJ-9 before PROJ-10.
\<close>

theorem c8_sorted_after_load:
  assumes "load_logs cfg lines st = (Inr u, st')"
  shows "sorted (map the_key (logs st')) \<and> (\<forall>k \<in> set (logs st'). log_key k = Inr (the_key k))"
proof -
  from assms obtain st1 :: state where
    1: "sort_logs (logs st1) = Inr (logs st')"
    by (auto simp: load_logs_def split: prod.splits sum.splits)
  then have 2: "list_all (\<lambda>k. \<not> isl (log_key k)) (logs st1)"
    and 3: "logs st' = sort_key the_key (logs st1)"
    by (auto simp: sort_logs_def split: if_splits)
  from 3 have "sorted (map the_key (logs st'))" by simp
  moreover have "log_key k = Inr (the_key k)" if "k \<in> set (logs st')" for k
  proof -
    from that 2 3 have "\<not> isl (log_key k)" by (simp add: list_all_iff)
    then show ?thesis by (cases "log_key k") (simp_all add: the_key_def)
  qed
  ultimately show ?thesis by blast
qed

theorem c8_sorted_after_load_witness:
  "load_logs \<lparr>parse_only = True, now = (2024, 1, 6), jira_issue = (\<lambda>_. False)\<rparr>
     [''2024-01-05'', ''PROJ-10, 1h30m'', ''PROJ-9, 45m''] initial =
   (Inr (),
    \<lparr>mode = Date_or_time_log, current_date = Some (2024, 1, 5),
      logs = [\<lparr>date = Some (2024, 1, 5), ticket = ''PROJ-9'', description = [],
                time = \<lparr>hours = 0, minutes = 45\<rparr>\<rparr>,
              \<lparr>date = Some (2024, 1, 5), ticket = ''PROJ-10'', description = [],
                time = \<lparr>hours = 1, minutes = 30\<rparr>\<rparr>],
      tickets = []\<rparr>)
   \<and> sorted (map the_key
       [\<lparr>date = Some (2024, 1, 5), ticket = ''PROJ-9'', description = [],
                time = \<lparr>hours = 0, minutes = 45\<rparr>\<rparr>,
        \<lparr>date = Some (2024, 1, 5), ticket = ''PROJ-10'', description = [],
                time = \<lparr>hours = 1, minutes = 30\<rparr>\<rparr>])"
  using c8_example c8_sorted_after_load [OF c8_example] by simp

text \<open>
  C9. A run starts in a fresh process, in the initial state. If the same lines load without
  an exception in two runs, whatever the clock, the flag and the issue tracker of each,
  then the list of logs of the second run equals that of the first, and it holds exactly
  one log for every line of the file that is neither blank nor a date heading: the entries
  of that file only.
\<close>

theorem c9_two_runs_equal:
  assumes "load_logs cfg1 lines initial = (Inr u1, st1)"
    and "load_logs cfg2 lines initial = (Inr u2, st2)"
  shows "logs st2 = logs st1 \<and> length (logs st2) = length (filter entry_line lines)"
proof -
  from assms(1) obtain sa where
    la: "load_lines cfg1 0 lines initial = (Inr (), sa)"
    and st1: "st1 = sa\<lparr>logs := sort_key the_key (logs sa)\<rparr>"
    by (auto simp: load_logs_cases [OF wf_initial] split: prod.splits sum.splits)
  from assms(2) obtain sb where
    lb: "load_lines cfg2 0 lines initial = (Inr (), sb)"
    and st2: "st2 = sb\<lparr>logs := sort_key the_key (logs sb)\<rparr>"
    by (auto simp: load_logs_cases [OF wf_initial] split: prod.splits sum.splits)
  have "agree initial initial" by (simp add: agree_def same_cursor_def)
  from load_lines_two [OF this la lb]
  have "logs sa = logs sb" "length (logs sa) = length (filter entry_line lines)"
    by (auto simp: agree_def initial_def)
  then show ?thesis by (simp add: st1 st2)
qed

theorem c9_two_runs_equal_witness:
  "load_logs \<lparr>parse_only = True, now = (2024, 1, 6), jira_issue = (\<lambda>_. False)\<rparr>
     [''2024-01-05'', '''', ''PROJ-1, 1h30m''] initial =
   (Inr (),
    \<lparr>mode = Date_or_time_log, current_date = Some (2024, 1, 5),
      logs = [\<lparr>date = Some (2024, 1, 5), ticket = ''PROJ-1'', description = [],
                time = \<lparr>hours = 1, minutes = 30\<rparr>\<rparr>],
      tickets = []\<rparr>)
   \<and> load_logs \<lparr>parse_only = False, now = (2024, 2, 1), jira_issue = (\<lambda>_. True)\<rparr>
     [''2024-01-05'', '''', ''PROJ-1, 1h30m''] initial =
   (Inr (),
    \<lparr>mode = Date_or_time_log, current_date = Some (2024, 1, 5),
      logs = [\<lparr>date = Some (2024, 1, 5), ticket = ''PROJ-1'', description = [],
                time = \<lparr>hours = 1, minutes = 30\<rparr>\<rparr>],
      tickets = [''PROJ-1'']\<rparr>)
   \<and> length (filter entry_line [''2024-01-05'', '''', ''PROJ-1, 1h30m'']) = 1"
  using c9_first c9_second c9_two_runs_equal [OF c9_first c9_second] by simp




end
